theory Spec2Isabelle
  imports Complex_Main "HOL-Library.Sublist"
begin

section \<open>Python values shared by both scripts\<close>

text \<open>
  The exceptions the two scripts can meet. Every constructor stands for a subclass of
  Python's \<open>Exception\<close>, so a handler \<open>except Exception\<close> catches each of them;
  \<open>KeyboardInterrupt\<close> and \<open>SystemExit\<close> are not \<open>Exception\<close>s and are outside the
  model. A computation that may raise returns \<open>pyexc + 'a\<close>, with \<open>Inl\<close> the exception.
  The messages the functions write with \<open>print\<close> are not part of their results and are
  left out; \<open>print\<close> is taken not to raise.
\<close>

datatype pyexc =
    TimeoutExpired      \<comment> \<open>\<open>subprocess.TimeoutExpired\<close>\<close>
  | OperationalError    \<comment> \<open>\<open>sqlite3.OperationalError\<close>\<close>
  | ValueError
  | OSError             \<comment> \<open>with its subclasses \<open>FileNotFoundError\<close>, \<open>PermissionError\<close>, ...\<close>
  | OtherException      \<comment> \<open>any other subclass of \<open>Exception\<close>\<close>

text \<open>
  A Python \<open>str\<close> is a \<open>string\<close>; a \<open>char\<close> stands for one code point below 256.
  \<open>py_whitespace\<close> lists the code points below 256 for which \<open>str.isspace\<close> holds:
  they are what \<open>str.strip()\<close> removes.
\<close>

definition py_whitespace :: "char list" where
  "py_whitespace =
     [CHR 0x09, CHR 0x0A, CHR 0x0B, CHR 0x0C, CHR 0x0D, CHR 0x1C, CHR 0x1D, CHR 0x1E,
      CHR 0x1F, CHR 0x20, CHR 0x85, CHR 0xA0]"

definition is_space :: "char \<Rightarrow> bool" where
  "is_space c = (c \<in> set py_whitespace)"

text \<open>\<open>s.strip()\<close>\<close>

definition strip :: "string \<Rightarrow> string" where
  "strip s = rev (dropWhile is_space (rev (dropWhile is_space s)))"

text \<open>\<open>s.split(sep)\<close> for a separator of one character: never the empty list.\<close>

fun split_on :: "char \<Rightarrow> string \<Rightarrow> string list" where
  "split_on sep [] = [[]]"
| "split_on sep (c # cs) =
     (if c = sep then [] # split_on sep cs
      else (case split_on sep cs of
              [] \<Rightarrow> [[c]]
            | p # ps \<Rightarrow> (c # p) # ps))"

text \<open>\<open>sub in s\<close> for two strings: \<open>sub\<close> occurs in \<open>s\<close> as a contiguous run.\<close>

fun contains :: "string \<Rightarrow> string \<Rightarrow> bool" where
  "contains sub [] = (sub = [])"
| "contains sub (c # cs) = (prefix sub (c # cs) \<or> contains sub cs)"

text \<open>\<open>str(n)\<close> for an integer (also what an f-string writes for \<open>{n}\<close>).\<close>

definition digit_char :: "nat \<Rightarrow> char" where
  "digit_char d = ''0123456789'' ! (d mod 10)"

function str_nat :: "nat \<Rightarrow> string" where
  "str_nat n = (if n < 10 then [digit_char n] else str_nat (n div 10) @ [digit_char (n mod 10)])"
  by pat_completeness auto
termination
  by (relation "measure (\<lambda>n. n)") auto

declare str_nat.simps [simp del]

definition str_int :: "int \<Rightarrow> string" where
  "str_int i = (if i < 0 then CHR ''-'' # str_nat (nat (- i)) else str_nat (nat i))"

text \<open>
  \<open>int(s)\<close> on a string, base 10. CPython skips white space on both sides (the C
  \<open>isspace\<close> characters, and below 256 also U+0085 and U+00A0, which it first turns into
  blanks; not U+001C to U+001F, which \<open>strip\<close> does remove), reads one optional sign, then
  digits with single underscores between them, and raises \<open>ValueError\<close> on anything
  else. Since Python 3.11 it also raises \<open>ValueError\<close> when there are more than
  \<open>sys.get_int_max_str_digits()\<close> digits (the parameter \<open>maxd\<close>; 4300 by default, 0 for
  no limit), a test it makes only beyond 640 digits.
\<close>

definition int_whitespace :: "char list" where
  "int_whitespace = [CHR 0x09, CHR 0x0A, CHR 0x0B, CHR 0x0C, CHR 0x0D, CHR 0x20, CHR 0x85, CHR 0xA0]"

definition int_space :: "char \<Rightarrow> bool" where
  "int_space c = (c \<in> set int_whitespace)"

definition is_digit :: "char \<Rightarrow> bool" where
  "is_digit c = (c \<in> set ''0123456789'')"

definition digit_val :: "char \<Rightarrow> nat" where
  "digit_val c = of_char c - 48"

fun digits_value :: "nat \<Rightarrow> string \<Rightarrow> nat" where
  "digits_value acc [] = acc"
| "digits_value acc (c # cs) = digits_value (10 * acc + digit_val c) cs"

fun double_underscore :: "string \<Rightarrow> bool" where
  "double_underscore (a # b # cs) = ((a = CHR ''_'' \<and> b = CHR ''_'') \<or> double_underscore (b # cs))"
| "double_underscore _ = False"

definition py_int :: "nat \<Rightarrow> string \<Rightarrow> pyexc + int" where
  "py_int maxd s =
     (let s1 = dropWhile int_space s;
          neg = (s1 \<noteq> [] \<and> hd s1 = CHR ''-'');
          s2 = (if s1 \<noteq> [] \<and> (hd s1 = CHR ''+'' \<or> hd s1 = CHR ''-'') then tl s1 else s1);
          body = takeWhile (\<lambda>c. is_digit c \<or> c = CHR ''_'') s2;
          rest = dropWhile (\<lambda>c. is_digit c \<or> c = CHR ''_'') s2;
          ds = filter is_digit body
      in if body = [] \<or> hd body = CHR ''_'' \<or> last body = CHR ''_'' \<or> double_underscore body
            \<or> (640 < length ds \<and> 0 < maxd \<and> maxd < length ds)
            \<or> \<not> list_all int_space rest
         then Inl ValueError
         else Inr ((if neg then - 1 else 1) * int (digits_value 0 ds)))"

section \<open>chromeHistory.py: the recency formatter\<close>

text \<open>
  A naive \<open>datetime\<close> is a point of the calendar with microsecond resolution: it is
  modelled by its count of microseconds from 1970-01-01 00:00:00 on the same calendar.
  The difference of two naive datetimes is a \<open>timedelta\<close>, which Python keeps
  normalised as days, seconds (0 to 86399) and microseconds (0 to 999999); only the days
  can be negative.
\<close>

datatype datetime = Datetime int

record timedelta =
  days :: int
  seconds :: int
  microseconds :: int

definition timedelta_of_microseconds :: "int \<Rightarrow> timedelta" where
  "timedelta_of_microseconds us =
     \<lparr>days = us div 86400000000,
      seconds = (us mod 86400000000) div 1000000,
      microseconds = us mod 1000000\<rparr>"

fun datetime_sub :: "datetime \<Rightarrow> datetime \<Rightarrow> timedelta" where
  "datetime_sub (Datetime a) (Datetime b) = timedelta_of_microseconds (a - b)"

text \<open>
  \<open>formatTimeDelta(visit_datetime)\<close>. The first argument is what \<open>datetime.now()\<close>
  returns when the function reads the clock. A \<open>datetime\<close> object is always true, so
  \<open>not visit_datetime\<close> holds for \<open>None\<close> only.
\<close>

definition formatTimeDelta :: "datetime \<Rightarrow> datetime option \<Rightarrow> string" where
  "formatTimeDelta now visit_datetime =
     (case visit_datetime of
        None \<Rightarrow> ''Unknown time''
      | Some v \<Rightarrow>
          (let delta = datetime_sub now v in
           if seconds delta < 60 then str_int (seconds delta) @ '' seconds ago''
           else if seconds delta < 3600 then str_int (seconds delta div 60) @ '' minutes ago''
           else if days delta = 0 then str_int (seconds delta div 3600) @ '' hours ago''
           else str_int (days delta) @ '' days ago''))"

section \<open>chromeCheck.py: the tab lister\<close>

text \<open>
  What \<open>subprocess.run\<close> hands back: the call raises (\<open>TimeoutExpired\<close> after five
  seconds, or another exception such as a missing \<open>osascript\<close>), or it returns a
  completed process with its exit status and the decoded text of its two streams.
\<close>

record completed_process =
  returncode :: int
  stdout :: string
  stderr :: string

text \<open>
  The dictionaries of both scripts start with the keys \<open>url\<close> and \<open>title\<close>; a tab adds
  \<open>window\<close>.
\<close>

record page =
  url :: string
  title :: string

record tab = page +
  window :: int

definition newline :: char where
  "newline = CHR 0x0A"

text \<open>
  The loop over the lines of the output. \<open>tabs\<close> is the list built so far;
  \<open>int(parts[2])\<close> may raise, which leaves the loop.
\<close>

fun parse_lines :: "nat \<Rightarrow> string list \<Rightarrow> tab list \<Rightarrow> pyexc + tab list" where
  "parse_lines maxd [] tabs = Inr tabs"
| "parse_lines maxd (line # lines) tabs =
     (if line \<noteq> [] then
        (let parts = split_on (CHR ''|'') line in
         if length parts = 3 then
           (case py_int maxd (parts ! 2) of
              Inl e \<Rightarrow> Inl e
            | Inr n \<Rightarrow>
                parse_lines maxd lines
                  (tabs @ [\<lparr>url = parts ! 0, title = parts ! 1, window = n\<rparr>]))
         else parse_lines maxd lines tabs)
      else parse_lines maxd lines tabs)"

text \<open>The body of the \<open>try\<close> block of \<open>getCurrentChromeTabs\<close>.\<close>

definition getCurrentChromeTabs_try :: "nat \<Rightarrow> pyexc + completed_process \<Rightarrow> pyexc + tab list" where
  "getCurrentChromeTabs_try maxd run =
     (case run of
        Inl e \<Rightarrow> Inl e
      | Inr result \<Rightarrow>
          if returncode result \<noteq> 0 then Inr []
          else parse_lines maxd (split_on newline (strip (stdout result))) [])"

text \<open>
  \<open>getCurrentChromeTabs()\<close>, with its two handlers. \<open>run\<close> is the outcome of
  \<open>subprocess.run\<close>; \<open>maxd\<close> is the interpreter's digit limit for \<open>int\<close>.
\<close>

definition getCurrentChromeTabs :: "nat \<Rightarrow> pyexc + completed_process \<Rightarrow> pyexc + tab list" where
  "getCurrentChromeTabs maxd run =
     (case getCurrentChromeTabs_try maxd run of
        Inr tabs \<Rightarrow> Inr tabs
      | Inl TimeoutExpired \<Rightarrow> Inr []
      | Inl e \<Rightarrow> Inr [])"

text \<open>The distraction check of the script's main part.\<close>

definition check_distracting_domains :: "string list" where
  "check_distracting_domains = [''youtube.com'', ''reddit.com'', ''twitter.com'', ''instagram.com'']"

definition distractions :: "tab list \<Rightarrow> tab list" where
  "distractions tabs =
     filter (\<lambda>tab. list_ex (\<lambda>domain. contains domain (url tab)) check_distracting_domains) tabs"

text \<open>
  The text the AppleScript returns for a list of tabs: for each tab its URL, its title
  and its window number, joined by \<open>|\<close>, followed by a line feed. \<open>OtherLine\<close> stands
  for any other line of text that may reach the parser.
\<close>

datatype out_line = TabLine string string nat | OtherLine string

fun line_text :: "out_line \<Rightarrow> string" where
  "line_text (TabLine u t w) = u @ ''|'' @ t @ ''|'' @ str_nat w"
| "line_text (OtherLine s) = s"

definition script_output :: "out_line list \<Rightarrow> string" where
  "script_output ls = concat (map (\<lambda>l. line_text l @ [newline]) ls)"

fun tabs_of :: "out_line list \<Rightarrow> tab list" where
  "tabs_of [] = []"
| "tabs_of (TabLine u t w # ls) = \<lparr>url = u, title = t, window = int w\<rparr> # tabs_of ls"
| "tabs_of (OtherLine s # ls) = tabs_of ls"

text \<open>
  A valid tab line: neither the URL nor the title holds the delimiter or a line feed,
  the URL does not start with white space (a URL holds none), and the window number has
  at most 640 digits. A valid other line is one line of text whose field count is not
  three.
\<close>

fun valid_line :: "out_line \<Rightarrow> bool" where
  "valid_line (TabLine u t w) =
     (CHR ''|'' \<notin> set u \<and> newline \<notin> set u \<and> CHR ''|'' \<notin> set t \<and> newline \<notin> set t
      \<and> (u = [] \<or> \<not> is_space (hd u)) \<and> length (str_nat w) \<le> 640)"
| "valid_line (OtherLine s) = (newline \<notin> set s \<and> length (split_on (CHR ''|'') s) \<noteq> 3)"

section \<open>chromeHistory.py: the history reader\<close>

text \<open>
  A row of the query: \<open>urls.url\<close>, \<open>urls.title\<close>, \<open>urls.visit_count\<close>,
  \<open>visits.visit_time\<close> and \<open>visits.visit_duration\<close>, in this order. The integer and text
  columns hold what the schema declares; \<open>None\<close> is SQL's \<open>NULL\<close>.
\<close>

type_synonym row = "string \<times> string option \<times> int \<times> int option \<times> int option"

text \<open>
  \<open>duration_seconds\<close> is the integer \<open>0\<close> or a float, \<open>visit_time\<close> a datetime or
  \<open>None\<close>.
\<close>

datatype 'f pynum = PyInt int | PyFloat 'f

record 'f entry = page +
  visit_time :: "datetime option"
  visit_count :: int
  duration_seconds :: "'f pynum"

datatype conn_mode = ReadOnly | ReadWrite

text \<open>
  What the function takes from outside the repository:
  \<^item> \<open>home\<close>: the directory \<open>os.path.expanduser\<close> puts for \<open>~\<close>;
  \<^item> \<open>sqlite_query\<close>: what connecting to a database file of the given contents (read-only
  through the URI \<open>?mode=ro\<close>, or by an ordinary connection) and running the join query
  with the given limit returns or raises;
  \<^item> the float arithmetic, on a type \<open>'f\<close> of floats: \<open>truediv a b\<close> is \<open>a / b\<close> on two
  integers, \<open>fsub x n\<close> is \<open>x - n\<close> for a float and an integer, and \<open>fromtimestamp\<close> is
  \<open>datetime.fromtimestamp\<close>. Python's own arithmetic, on binary64 floats, is defined
  further down (\<open>python_env\<close>); what does not depend on it is proved for any.
\<close>

record ('c, 'f) env =
  home :: string
  sqlite_query :: "conn_mode \<Rightarrow> 'c \<Rightarrow> int \<Rightarrow> pyexc + row list"
  truediv :: "int \<Rightarrow> int \<Rightarrow> 'f"
  fsub :: "'f \<Rightarrow> int \<Rightarrow> 'f"
  fromtimestamp :: "'f \<Rightarrow> pyexc + datetime"

text \<open>
  The file system: the files with their contents, the paths this process cannot create
  or overwrite, and the paths it cannot unlink (a file of another user in a sticky
  \<open>/tmp\<close>, a directory).
\<close>

record 'c world =
  files :: "string \<rightharpoonup> 'c"
  unwritable :: "string set"
  undeletable :: "string set"

definition os_path_exists :: "'c world \<Rightarrow> string \<Rightarrow> bool" where
  "os_path_exists w p = (files w p \<noteq> None)"

definition shutil_copy2 :: "'c world \<Rightarrow> string \<Rightarrow> string \<Rightarrow> pyexc + 'c world" where
  "shutil_copy2 w src dst =
     (case files w src of
        None \<Rightarrow> Inl OSError
      | Some c \<Rightarrow> if dst \<in> unwritable w then Inl OSError
                  else Inr (w\<lparr>files := (files w)(dst \<mapsto> c)\<rparr>))"

definition os_remove :: "'c world \<Rightarrow> string \<Rightarrow> pyexc + 'c world" where
  "os_remove w p =
     (if files w p = None \<or> p \<in> undeletable w then Inl OSError
      else Inr (w\<lparr>files := (files w)(p := None)\<rparr>))"

text \<open>
  Connecting to the file at a path and running the query. A path that names no file
  gives no table to query: SQLite raises \<open>OperationalError\<close>. The answer is taken from
  the contents of the database file alone and the file system is left as it is: a
  journal file beside the database is assumed to be one SQLite leaves alone (an empty
  one, as the browser keeps it between transactions), not one it would replay and
  delete.
\<close>

definition run_query :: "('c, 'f) env \<Rightarrow> conn_mode \<Rightarrow> 'c world \<Rightarrow> string \<Rightarrow> int \<Rightarrow> pyexc + row list" where
  "run_query env mode w p limit =
     (case files w p of
        None \<Rightarrow> Inl OperationalError
      | Some c \<Rightarrow> sqlite_query env mode c limit)"

definition history_path :: "('c, 'f) env \<Rightarrow> string" where
  "history_path env = home env @ ''/Library/Application Support/Google/Chrome/Default/History''"

subsection \<open>getRecentChromeHistoryWAL\<close>

text \<open>The body of the loop over the rows: one row gives one entry, or raises.\<close>

fun wal_entry :: "('c, 'f) env \<Rightarrow> row \<Rightarrow> pyexc + 'f entry" where
  "wal_entry env (url', title', visit_count', chrome_time, duration) =
     (case (case chrome_time of
              None \<Rightarrow> Inr None
            | Some t \<Rightarrow>
                if t \<noteq> 0 then
                  (let unix_timestamp = fsub env (truediv env t 1000000) 11644473600 in
                   case fromtimestamp env unix_timestamp of
                     Inl e \<Rightarrow> Inl e
                   | Inr d \<Rightarrow> Inr (Some d))
                else Inr None) of
        Inl e \<Rightarrow> Inl e
      | Inr visit_datetime \<Rightarrow>
          Inr \<lparr>url = url',
               title = (case title' of None \<Rightarrow> ''(No title)''
                        | Some s \<Rightarrow> if s \<noteq> [] then s else ''(No title)''),
               visit_time = visit_datetime,
               visit_count = visit_count',
               duration_seconds =
                 (case duration of None \<Rightarrow> PyInt 0
                  | Some d \<Rightarrow> if d \<noteq> 0 then PyFloat (truediv env d 1000000) else PyInt 0)\<rparr>)"

fun wal_loop :: "('c, 'f) env \<Rightarrow> row list \<Rightarrow> 'f entry list \<Rightarrow> pyexc + 'f entry list" where
  "wal_loop env [] history = Inr history"
| "wal_loop env (r # rows) history =
     (case wal_entry env r of
        Inl e \<Rightarrow> Inl e
      | Inr en \<Rightarrow> wal_loop env rows (history @ [en]))"

definition getRecentChromeHistoryWAL_try ::
    "('c, 'f) env \<Rightarrow> 'c world \<Rightarrow> int \<Rightarrow> pyexc + 'f entry list" where
  "getRecentChromeHistoryWAL_try env w limit =
     (case run_query env ReadOnly w (history_path env) limit of
        Inl e \<Rightarrow> Inl e
      | Inr rows \<Rightarrow> wal_loop env rows [])"

definition getRecentChromeHistoryWAL ::
    "('c, 'f) env \<Rightarrow> 'c world \<Rightarrow> int \<Rightarrow> pyexc + 'f entry list" where
  "getRecentChromeHistoryWAL env w limit =
     (if \<not> os_path_exists w (history_path env) then Inr []
      else (case getRecentChromeHistoryWAL_try env w limit of
              Inr history \<Rightarrow> Inr history
            | Inl OperationalError \<Rightarrow> Inr []
            | Inl e \<Rightarrow> Inr []))"

subsection \<open>getRecentChromeHistoryCopy\<close>

definition temp_path :: string where
  "temp_path = ''/tmp/chrome_history_copy.db''"

fun copy_entry :: "('c, 'f) env \<Rightarrow> row \<Rightarrow> pyexc + 'f entry" where
  "copy_entry env (url', title', visit_count', chrome_time, duration) =
     (case (case chrome_time of
              None \<Rightarrow> Inr None
            | Some t \<Rightarrow>
                if t \<noteq> 0 then
                  (let unix_timestamp = fsub env (truediv env t 1000000) 11644473600 in
                   case fromtimestamp env unix_timestamp of
                     Inl e \<Rightarrow> Inl e
                   | Inr d \<Rightarrow> Inr (Some d))
                else Inr None) of
        Inl e \<Rightarrow> Inl e
      | Inr visit_datetime \<Rightarrow>
          Inr \<lparr>url = url',
               title = (case title' of None \<Rightarrow> ''(No title)''
                        | Some s \<Rightarrow> if s \<noteq> [] then s else ''(No title)''),
               visit_time = visit_datetime,
               visit_count = visit_count',
               duration_seconds =
                 (case duration of None \<Rightarrow> PyInt 0
                  | Some d \<Rightarrow> if d \<noteq> 0 then PyFloat (truediv env d 1000000) else PyInt 0)\<rparr>)"

fun copy_loop :: "('c, 'f) env \<Rightarrow> row list \<Rightarrow> 'f entry list \<Rightarrow> pyexc + 'f entry list" where
  "copy_loop env [] history = Inr history"
| "copy_loop env (r # rows) history =
     (case copy_entry env r of
        Inl e \<Rightarrow> Inl e
      | Inr en \<Rightarrow> copy_loop env rows (history @ [en]))"

text \<open>
  The body of the \<open>try\<close> block, with the file system it leaves behind: on an exception,
  the file system as it was when the exception was raised.
\<close>

definition getRecentChromeHistoryCopy_try ::
    "('c, 'f) env \<Rightarrow> 'c world \<Rightarrow> int \<Rightarrow> (pyexc + 'f entry list) \<times> 'c world" where
  "getRecentChromeHistoryCopy_try env w limit =
     (case shutil_copy2 w (history_path env) temp_path of
        Inl e \<Rightarrow> (Inl e, w)
      | Inr w1 \<Rightarrow>
          (let journal_path = history_path env @ ''-journal'' in
           case (if os_path_exists w1 journal_path
                 then shutil_copy2 w1 journal_path (temp_path @ ''-journal'')
                 else Inr w1) of
             Inl e \<Rightarrow> (Inl e, w1)
           | Inr w2 \<Rightarrow>
               (case run_query env ReadWrite w2 temp_path limit of
                  Inl e \<Rightarrow> (Inl e, w2)
                | Inr rows \<Rightarrow>
                    (case copy_loop env rows [] of
                       Inl e \<Rightarrow> (Inl e, w2)
                     | Inr history \<Rightarrow>
                         (case os_remove w2 temp_path of
                            Inl e \<Rightarrow> (Inl e, w2)
                          | Inr w3 \<Rightarrow>
                              (case (if os_path_exists w3 (temp_path @ ''-journal'')
                                     then os_remove w3 (temp_path @ ''-journal'')
                                     else Inr w3) of
                                 Inl e \<Rightarrow> (Inl e, w3)
                               | Inr w4 \<Rightarrow> (Inr history, w4)))))))"

text \<open>
  \<open>getRecentChromeHistoryCopy(limit)\<close>: the result (a list, or the exception that leaves
  the function) and the file system after the call. The handler removes the scratch
  copy when it exists; an exception of that removal is not handled.
\<close>

definition getRecentChromeHistoryCopy ::
    "('c, 'f) env \<Rightarrow> 'c world \<Rightarrow> int \<Rightarrow> (pyexc + 'f entry list) \<times> 'c world" where
  "getRecentChromeHistoryCopy env w limit =
     (if \<not> os_path_exists w (history_path env) then (Inr [], w)
      else (case getRecentChromeHistoryCopy_try env w limit of
              (Inr history, w') \<Rightarrow> (Inr history, w')
            | (Inl e, w') \<Rightarrow>
                if os_path_exists w' temp_path then
                  (case os_remove w' temp_path of
                     Inl e' \<Rightarrow> (Inl e', w')
                   | Inr w'' \<Rightarrow> (Inr [], w''))
                else (Inr [], w')))"

text \<open>The distraction check of the script's main part.\<close>

definition history_distracting_domains :: "string list" where
  "history_distracting_domains = [''youtube.com'', ''reddit.com'', ''twitter.com'', ''instagram.com'']"

definition recent_distractions :: "'f entry list \<Rightarrow> 'f entry list" where
  "recent_distractions history =
     filter (\<lambda>entry. list_ex (\<lambda>domain. contains domain (url entry)) history_distracting_domains)
       history"

text \<open>The vendor timestamp of a row (\<open>visits.visit_time\<close>).\<close>

fun chrome_time_of :: "row \<Rightarrow> int option" where
  "chrome_time_of (url', title', visit_count', chrome_time, duration) = chrome_time"

section \<open>Python's floats and \<open>datetime.fromtimestamp\<close>\<close>

text \<open>
  A Python float is a binary64 number; the finite ones are rationals, and the model
  keeps a float as the rational it denotes. \<open>float_round\<close> rounds a rational to the
  nearest float, ties to the even significand: the exponent of the last place is
  \<open>ilog2 \<bar>x\<bar> - 52\<close>, and \<open>- 1074\<close> for the subnormal numbers. Overflow is left out: the
  integers of a database row have 64 bits, and their quotients by 1000000 are far from
  the largest float.
\<close>

definition round_half_even :: "rat \<Rightarrow> int" where
  "round_half_even x =
     (let f = \<lfloor>x\<rfloor>; r = x - of_int f in
      if r < 1 / 2 then f else if 1 / 2 < r then f + 1 else if even f then f else f + 1)"

function bit_length :: "int \<Rightarrow> int" where
  "bit_length n = (if n \<le> 0 then 0 else 1 + bit_length (n div 2))"
  by pat_completeness auto
termination
  by (relation "measure nat") auto

declare bit_length.simps [simp del]

definition pow2 :: "int \<Rightarrow> rat" where
  "pow2 e = (if 0 \<le> e then 2 ^ nat e else 1 / 2 ^ nat (- e))"

definition ilog2 :: "rat \<Rightarrow> int" where
  "ilog2 x =
     (let (a, b) = quotient_of x;
          k = bit_length a - bit_length b
      in if pow2 k \<le> x then k else k - 1)"

definition float_round :: "rat \<Rightarrow> rat" where
  "float_round x =
     (if x = 0 then 0
      else (let e = max (ilog2 \<bar>x\<bar> - 52) (- 1074);
                m = round_half_even (\<bar>x\<bar> / pow2 e)
            in sgn x * of_int m * pow2 e))"

definition py_truediv :: "int \<Rightarrow> int \<Rightarrow> rat" where
  "py_truediv a b = float_round (of_int a / of_int b)"

definition py_float_sub_int :: "rat \<Rightarrow> int \<Rightarrow> rat" where
  "py_float_sub_int x n = float_round (x - float_round (of_int n))"

definition timeval_of_float :: "rat \<Rightarrow> int \<times> int" where
  "timeval_of_float x =
     (let intpart = (if 0 \<le> x then \<lfloor>x\<rfloor> else \<lceil>x\<rceil>);
          floatpart = x - of_int intpart;
          u = round_half_even (float_round (floatpart * 1000000))
      in if 1000000 \<le> u then (intpart + 1, u - 1000000)
         else if u < 0 then (intpart - 1, u + 1000000)
         else (intpart, u))"

text \<open>
  \<open>py_truediv a b\<close> is \<open>a / b\<close> on two integers, which CPython rounds correctly;
  \<open>py_float_sub_int x n\<close> is \<open>x - n\<close>, where \<open>n\<close> is first converted to a float.
  \<open>timeval_of_float\<close> is how \<open>datetime.fromtimestamp\<close> reads a float as seconds and
  microseconds: it splits off the integral part towards zero, multiplies the fraction
  by \<open>1e6\<close> (a float product), rounds to an integer, half to even, and carries. The
  seconds are a \<open>time_t\<close>, counted from 1970-01-01 00:00:00 UTC; what the platform's
  \<open>localtime\<close> and the range of \<open>datetime\<close> make of them is the parameter \<open>local\<close>.
\<close>

definition py_fromtimestamp :: "(int \<Rightarrow> int \<Rightarrow> pyexc + datetime) \<Rightarrow> rat \<Rightarrow> pyexc + datetime" where
  "py_fromtimestamp local x = (case timeval_of_float x of (sec, us) \<Rightarrow> local sec us)"

definition python_env ::
    "string \<Rightarrow> (conn_mode \<Rightarrow> 'c \<Rightarrow> int \<Rightarrow> pyexc + row list)
     \<Rightarrow> (int \<Rightarrow> int \<Rightarrow> pyexc + datetime) \<Rightarrow> ('c, rat) env" where
  "python_env h q local =
     \<lparr>home = h, sqlite_query = q, truediv = py_truediv, fsub = py_float_sub_int,
      fromtimestamp = py_fromtimestamp local\<rparr>"

section \<open>Concrete inputs\<close>

text \<open>
  To run the model on an input, one environment is fixed: Python's arithmetic, and for
  the local time CPython on Linux with UTC as the time zone, where a \<open>time_t\<close> outside 64
  bits raises \<open>OverflowError\<close>, one that \<open>localtime\<close> cannot convert raises \<open>OSError\<close>,
  and one outside 0001-01-02 to 9999-12-31 raises \<open>ValueError\<close>. The database file is
  represented by the rows of the join, newest first: \<open>stored_rows\<close> answers the query
  from them, \<open>failing_query\<close> is a database that cannot be read.
\<close>

definition utc_local_datetime :: "int \<Rightarrow> int \<Rightarrow> pyexc + datetime" where
  "utc_local_datetime sec us =
     (if sec < - 9223372036854775808 \<or> 9223372036854775807 < sec then Inl OtherException
      else if sec < - 67768040609740800 \<or> 67768036191676799 < sec then Inl OSError
      else if sec < - 62135510400 \<or> 253402300799 < sec then Inl ValueError
      else Inr (Datetime (sec * 1000000 + us)))"

definition stored_rows :: "conn_mode \<Rightarrow> row list \<Rightarrow> int \<Rightarrow> pyexc + row list" where
  "stored_rows mode rows limit = Inr (if limit < 0 then rows else take (nat limit) rows)"

definition failing_query :: "conn_mode \<Rightarrow> row list \<Rightarrow> int \<Rightarrow> pyexc + row list" where
  "failing_query mode rows limit = Inl OperationalError"

definition utc_env ::
    "(conn_mode \<Rightarrow> row list \<Rightarrow> int \<Rightarrow> pyexc + row list) \<Rightarrow> (row list, rat) env" where
  "utc_env q = python_env ''/Users/u'' q utc_local_datetime"

definition demo_rows :: "row list" where
  "demo_rows =
     [(''https://www.youtube.com/watch'', Some ''Video'', 3, Some 13350000000000000, Some 1500000),
      (''https://example.org/'', None, 1, Some 0, None)]"

definition demo_world :: "row list world" where
  "demo_world =
     \<lparr>files = [''/Users/u/Library/Application Support/Google/Chrome/Default/History'' \<mapsto> demo_rows],
      unwritable = {}, undeletable = {}\<rparr>"

text \<open>The same store with its journal file beside it.\<close>

definition journal_world :: "row list world" where
  "journal_world =
     \<lparr>files = [''/Users/u/Library/Application Support/Google/Chrome/Default/History'' \<mapsto> demo_rows,
               ''/Users/u/Library/Application Support/Google/Chrome/Default/History-journal'' \<mapsto> []],
      unwritable = {}, undeletable = {}\<rparr>"

text \<open>
  The claim's words for the distraction filter, to compare the code with: a URL is
  distracting when one of the domains occurs in it, that is, when the URL is some text,
  then the domain, then some text.
\<close>

definition url_is_distracting :: "string list \<Rightarrow> string \<Rightarrow> bool" where
  "url_is_distracting domains u = (\<exists>d \<in> set domains. \<exists>before after. u = before @ d @ after)"

definition youtube_tab :: tab where
  "youtube_tab = \<lparr>url = ''https://www.youtube.com/watch'', title = ''Video'', window = 1\<rparr>"

definition example_tab :: tab where
  "example_tab = \<lparr>url = ''https://example.org/'', title = ''Example'', window = 2\<rparr>"

text \<open>
  For the proofs about the lines of the output: \<open>join_lines\<close> is Python's
  \<open>'\n'.join\<close>; a line has \<open>three_fields\<close> when the parser keeps it; in \<open>clean_lines\<close> no
  line holds a line feed and a line of three fields neither starts nor ends with white
  space. \<open>demo_lines\<close> is an output with two tabs and three other lines.
\<close>

fun join_lines :: "string list \<Rightarrow> string" where
  "join_lines [] = []"
| "join_lines [l] = l"
| "join_lines (l # l' # ls) = l @ newline # join_lines (l' # ls)"

definition three_fields :: "string \<Rightarrow> bool" where
  "three_fields l = (length (split_on (CHR ''|'') l) = 3)"

definition clean_lines :: "string list \<Rightarrow> bool" where
  "clean_lines ls =
     list_all (\<lambda>l. newline \<notin> set l \<and>
                    (three_fields l \<longrightarrow> l \<noteq> [] \<and> \<not> is_space (hd l) \<and> \<not> is_space (last l))) ls"

definition demo_lines :: "out_line list" where
  "demo_lines =
     [TabLine ''https://www.youtube.com/watch'' ''Video'' 1,
      OtherLine ''a|b'',
      OtherLine [],
      OtherLine ''w|x|y|z'',
      TabLine ''https://example.org/'' ''Example'' 12]"

section \<open>Properties\<close>

subsection \<open>The recency formatter\<close>

lemma str_nat_digit: "n < 10 \<Longrightarrow> str_nat n = [digit_char n]"
  by (subst str_nat.simps) simp

lemma formatTimeDelta_None: "formatTimeDelta now None = ''Unknown time''"
  by (simp add: formatTimeDelta_def)

lemma formatTimeDelta_30_seconds:
  "formatTimeDelta (Datetime (x + 30000000)) (Some (Datetime x)) = ''30 seconds ago''"
  by (simp add: formatTimeDelta_def timedelta_of_microseconds_def str_int_def
      str_nat.simps[of 30] str_nat_digit digit_char_def)

lemma formatTimeDelta_90_seconds:
  "formatTimeDelta (Datetime (x + 90000000)) (Some (Datetime x)) = ''1 minutes ago''"
  by (simp add: formatTimeDelta_def timedelta_of_microseconds_def str_int_def
      str_nat_digit digit_char_def)

lemma formatTimeDelta_2_hours:
  "formatTimeDelta (Datetime (x + 7200000000)) (Some (Datetime x)) = ''2 hours ago''"
  by (simp add: formatTimeDelta_def timedelta_of_microseconds_def str_int_def
      str_nat_digit digit_char_def)

text \<open>
  The tests on \<open>delta.seconds\<close> come first and read the seconds within the day, not the
  whole difference: whatever the number of days, a difference whose seconds part is
  below 60 is reported in seconds.
\<close>

lemma formatTimeDelta_seconds_first:
  assumes "0 \<le> s" "s < 60"
  shows "formatTimeDelta (Datetime (x + d * 86400000000 + s * 1000000)) (Some (Datetime x))
         = str_int s @ '' seconds ago''"
proof -
  have "(d * 86400000000 + s * 1000000) mod 86400000000 = s * 1000000"
    using assms by (simp add: mod_pos_pos_trivial)
  then show ?thesis
    using assms by (simp add: formatTimeDelta_def timedelta_of_microseconds_def)
qed

text \<open>
  C7. The formatter maps an absent timestamp to "Unknown time" and reports 30 seconds in
  seconds, 90 seconds in minutes and 2 hours in hours, but a visit exactly two days
  before the clock reading is reported as "0 seconds ago", not in days: the difference
  is 2 days and 0 seconds, and the first test, \<open>delta.seconds < 60\<close>, holds.
\<close>

theorem formatTimeDelta_two_days:
  "formatTimeDelta (Datetime (x + 172800000000)) (Some (Datetime x)) = ''0 seconds ago''"
  by (simp add: formatTimeDelta_def timedelta_of_microseconds_def str_int_def
      str_nat_digit digit_char_def)

theorem formatTimeDelta_two_days_witness:
  "formatTimeDelta (Datetime 1704283200000000) (Some (Datetime 1704110400000000))
   = ''0 seconds ago''"
  using formatTimeDelta_two_days [of 1704110400000000] by simp

subsection \<open>Rounding to a float\<close>

text \<open>
  The error of one rounding is at most \<open>\<bar>x\<bar> / 2 ^ 53\<close> (half a unit in the last place),
  or \<open>2 powi - 1075\<close> for the subnormal numbers.
\<close>

lemma round_half_even_error: "\<bar>of_int (round_half_even y) - y\<bar> \<le> 1 / 2"
proof -
  have "of_int \<lfloor>y\<rfloor> \<le> y" and "y < of_int \<lfloor>y\<rfloor> + 1"
    by linarith+
  then show ?thesis
    by (auto simp: round_half_even_def Let_def)
qed

lemma pow2_powi: "pow2 e = 2 powi e"
  by (simp add: pow2_def power_int_def inverse_eq_divide power_one_over)

lemma pow2_pos: "0 < pow2 e"
  by (simp add: pow2_powi)

lemma pow2_diff: "pow2 (a - b) = pow2 a / pow2 b"
  by (simp add: pow2_powi power_int_diff)

lemma pow2_nat: "0 \<le> e \<Longrightarrow> pow2 e = 2 ^ nat e"
  by (simp add: pow2_def)

lemma bit_length_pos: "0 < n \<Longrightarrow> 0 < bit_length n"
proof -
  assume "0 < n"
  moreover have "0 \<le> bit_length m" for m
    by (induction m rule: bit_length.induct) (subst bit_length.simps, simp)
  ultimately show ?thesis
    by (subst bit_length.simps) (simp add: add_pos_nonneg)
qed

lemma bit_length_bounds:
  "0 < n \<Longrightarrow> 2 ^ nat (bit_length n - 1) \<le> n \<and> n < 2 ^ nat (bit_length n)"
proof (induction n rule: bit_length.induct)
  case (1 n)
  show ?case
  proof (cases "n = 1")
    case True
    have "bit_length 1 = 1"
      by (simp add: bit_length.simps [of 1] bit_length.simps [of 0])
    with True show ?thesis by simp
  next
    case False
    with "1.prems" have h: "0 < n div 2" by simp
    with "1.IH" "1.prems" have IH: "2 ^ nat (bit_length (n div 2) - 1) \<le> n div 2"
      "n div 2 < 2 ^ nat (bit_length (n div 2))"
      by simp_all
    from bit_length_pos [OF h] have p: "0 < bit_length (n div 2)" .
    have b: "bit_length n = 1 + bit_length (n div 2)"
      using "1.prems" by (subst bit_length.simps) simp
    have e1: "nat (bit_length n - 1) = Suc (nat (bit_length (n div 2) - 1))"
      using p b by simp
    have e2: "nat (bit_length n) = Suc (nat (bit_length (n div 2)))"
      using p b by simp
    have d: "2 * (n div 2) \<le> n" "n < 2 * (n div 2) + 2"
      by simp_all
    from IH d show ?thesis
      unfolding e1 e2 power_Suc by linarith
  qed
qed

lemma ilog2_lower:
  assumes "0 < x"
  shows "pow2 (ilog2 x) \<le> x"
proof -
  obtain a b where q: "quotient_of x = (a, b)" by (cases "quotient_of x")
  then have b: "0 < b" and x: "x = of_int a / of_int b"
    by (simp_all add: quotient_of_denom_pos quotient_of_div)
  with assms have a: "0 < a"
    by (simp add: zero_less_divide_iff)
  let ?k = "bit_length a - bit_length b"
  show ?thesis
  proof (cases "pow2 ?k \<le> x")
    case True
    then show ?thesis by (simp add: ilog2_def q)
  next
    case False
    from bit_length_bounds [OF a] have la: "2 ^ nat (bit_length a - 1) \<le> a" by simp
    from bit_length_bounds [OF b] have lb: "b < 2 ^ nat (bit_length b)" by simp
    have pa: "pow2 (bit_length a - 1) \<le> of_int a"
    proof -
      have "pow2 (bit_length a - 1) = of_int (2 ^ nat (bit_length a - 1))"
        using bit_length_pos [OF a] by (simp add: pow2_nat)
      also have "\<dots> \<le> of_int a"
        using la by (simp only: of_int_le_iff)
      finally show ?thesis .
    qed
    have pb: "of_int b \<le> pow2 (bit_length b)"
    proof -
      from lb have "b \<le> 2 ^ nat (bit_length b)" by simp
      then have "of_int b \<le> (of_int (2 ^ nat (bit_length b)) :: rat)"
        by (simp only: of_int_le_iff)
      also have "\<dots> = pow2 (bit_length b)"
        using bit_length_pos [OF b] by (simp add: pow2_nat)
      finally show ?thesis .
    qed
    have il: "ilog2 x = ?k - 1"
      using False by (simp add: ilog2_def q)
    have "pow2 (?k - 1) = pow2 (bit_length a - 1) / pow2 (bit_length b)"
      using pow2_diff [of "bit_length a - 1" "bit_length b"] by (simp add: algebra_simps)
    also have "\<dots> \<le> of_int a / of_int b"
      using pa pb b pow2_pos [of "bit_length a - 1"]
      by (intro frac_le) simp_all
    finally have "pow2 (?k - 1) \<le> x"
      by (simp only: x)
    then show ?thesis
      by (simp only: il)
  qed
qed

lemma float_round_error:
  "\<bar>float_round x - x\<bar> \<le> \<bar>x\<bar> / 2 ^ 53 + pow2 (- 1075)"
proof (cases "x = 0")
  case True
  then show ?thesis using pow2_pos [of "- 1075"] by (simp add: float_round_def)
next
  case False
  define a where "a = \<bar>x\<bar>"
  define e where "e = max (ilog2 a - 52) (- 1074)"
  define p where "p = pow2 e"
  define m where "m = (of_int (round_half_even (a / p)) :: rat)"
  have a: "0 < a" using False by (simp add: a_def)
  have p: "0 < p" by (simp add: p_def pow2_pos)
  have fr: "float_round x = sgn x * m * p"
    using False by (simp add: float_round_def Let_def a_def e_def p_def m_def)
  have "\<bar>float_round x - x\<bar> = \<bar>m * p - a\<bar>"
  proof (cases "0 < x")
    case True
    then show ?thesis by (simp add: fr a_def)
  next
    case neg: False
    with False have "x < 0" by simp
    then have "float_round x - x = - (m * p - a)"
      by (simp add: fr a_def)
    then show ?thesis by (simp only: abs_minus)
  qed
  also have "m * p - a = (m - a / p) * p"
    using p by (simp add: field_simps)
  also have "\<bar>\<dots>\<bar> = \<bar>m - a / p\<bar> * p"
    using p by (simp add: abs_mult)
  also have "\<dots> \<le> 1 / 2 * p"
    using round_half_even_error [of "a / p"] p
    by (intro mult_right_mono) (simp_all add: m_def)
  finally have h: "\<bar>float_round x - x\<bar> \<le> p / 2" by simp
  have "p / 2 \<le> a / 2 ^ 53 + pow2 (- 1075)"
  proof (cases "- 1074 \<le> ilog2 a - 52")
    case True
    then have "e = ilog2 a - 52"
      unfolding e_def by (rule max.absorb1)
    then have "p = pow2 (ilog2 a) / pow2 52"
      by (simp add: p_def pow2_diff)
    also have "\<dots> \<le> a / pow2 52"
      using ilog2_lower [OF a] pow2_pos [of 52] by (simp add: divide_right_mono)
    finally have "p / 2 \<le> a / 2 ^ 53"
      by (simp add: pow2_def)
    then show ?thesis
      using pow2_pos [of "- 1075"] by linarith
  next
    case False
    then have "e = - 1074"
      unfolding e_def by (intro max.absorb2) simp
    then have "p = pow2 (- 1074)"
      by (simp add: p_def)
    moreover have "pow2 (- 1074) / 2 = pow2 (- 1075)"
      by (simp add: pow2_def)
    ultimately show ?thesis
      using a by simp
  qed
  with h show ?thesis by (simp add: a_def)
qed


lemma pow2_tiny: "pow2 (- 1075) \<le> 1 / 2 ^ 60"
proof -
  have "(2::rat) ^ 60 \<le> 2 ^ 1075"
    by (rule power_increasing) simp_all
  then show ?thesis
    by (simp add: pow2_def frac_le)
qed

lemma timeval_of_float_error:
  assumes "timeval_of_float x = (sec, us)"
  shows "0 \<le> us \<and> us < 1000000
         \<and> \<bar>of_int (sec * 1000000 + us) - x * 1000000\<bar>
             \<le> 1 / 2 + 1000000 / 2 ^ 53 + pow2 (- 1075)"
proof -
  define ip where "ip = (if 0 \<le> x then \<lfloor>x\<rfloor> else \<lceil>x\<rceil>)"
  define y where "y = (x - of_int ip) * 1000000"
  define z where "z = float_round y"
  define u where "u = round_half_even z"
  have fp: "\<bar>x - of_int ip\<bar> < 1"
    unfolding ip_def by (cases "0 \<le> x") (simp_all, linarith+)
  then have y: "\<bar>y\<bar> < 1000000"
    by (simp add: y_def abs_mult)
  have "\<bar>z - y\<bar> \<le> \<bar>y\<bar> / 2 ^ 53 + pow2 (- 1075)"
    unfolding z_def by (rule float_round_error)
  with y have zy: "\<bar>z - y\<bar> \<le> 1000000 / 2 ^ 53 + pow2 (- 1075)"
    by simp
  have uz: "\<bar>of_int u - z\<bar> \<le> 1 / 2"
    unfolding u_def by (rule round_half_even_error)
  from zy uz have uy: "\<bar>of_int u - y\<bar> \<le> 1 / 2 + 1000000 / 2 ^ 53 + pow2 (- 1075)"
    by linarith
  with pow2_tiny have "\<bar>of_int u - y\<bar> < 1"
    by simp
  with y have "(of_int u :: rat) < of_int 1000001" and "(of_int (- 1000001) :: rat) < of_int u"
    by simp_all
  then have ub: "u \<le> 1000000" "- 1000000 \<le> u"
    by (simp_all only: of_int_less_iff)
  have "timeval_of_float x = (if 1000000 \<le> u then (ip + 1, u - 1000000)
                              else if u < 0 then (ip - 1, u + 1000000) else (ip, u))"
    unfolding timeval_of_float_def Let_def u_def z_def y_def ip_def ..
  with assms have tv: "(sec, us) = (if 1000000 \<le> u then (ip + 1, u - 1000000)
                         else if u < 0 then (ip - 1, u + 1000000) else (ip, u))"
    by simp
  then have us: "0 \<le> us \<and> us < 1000000" and su: "sec * 1000000 + us = ip * 1000000 + u"
    using ub by (auto split: if_splits)
  have "(of_int (sec * 1000000 + us) :: rat) = of_int (ip * 1000000 + u)"
    by (simp only: su)
  then have "of_int (sec * 1000000 + us) - x * 1000000 = of_int u - y"
    by (simp add: y_def algebra_simps)
  with uy us show ?thesis by simp
qed

lemma float_round_offset: "float_round 11644473600 = 11644473600"
  by code_simp

lemma conversion_error:
  assumes t: "- (2 ^ 63) \<le> t" "t < 2 ^ 63"
    and tv: "timeval_of_float (py_float_sub_int (py_truediv t 1000000) 11644473600) = (sec, us)"
  shows "0 \<le> us \<and> us < 1000000
         \<and> \<bar>of_int (sec * 1000000 + us - (t - 11644473600000000))\<bar>
             \<le> (of_int \<bar>t\<bar> / 2 ^ 52 + 2 :: rat)"
proof -
  define X where "X = (of_int t / 1000000 :: rat)"
  define x1 where "x1 = float_round X"
  define x2 where "x2 = float_round (x1 - 11644473600)"
  define R where "R = (of_int (sec * 1000000 + us) :: rat)"
  define p where "p = pow2 (- 1075)"
  define T where "T = \<bar>X\<bar>"
  have x2: "py_float_sub_int (py_truediv t 1000000) 11644473600 = x2"
    by (simp add: py_float_sub_int_def py_truediv_def float_round_offset x2_def x1_def X_def)
  have p: "0 < p" "p \<le> 1 / 2 ^ 60"
    unfolding p_def by (rule pow2_pos, rule pow2_tiny)
  have T: "0 \<le> T" "T * 1000000 = of_int \<bar>t\<bar>"
    by (simp_all add: T_def X_def abs_mult)
  from t have "\<bar>t\<bar> \<le> 2 ^ 63" by simp
  then have "(of_int \<bar>t\<bar> :: rat) \<le> of_int (2 ^ 63)"
    by (simp only: of_int_le_iff)
  then have Tb: "T * 1000000 \<le> 2 ^ 63"
    by (simp add: T(2))
  have e1: "\<bar>x1 - X\<bar> \<le> T / 2 ^ 53 + p"
    unfolding x1_def T_def p_def by (rule float_round_error)
  have e2: "\<bar>x2 - (x1 - 11644473600)\<bar> \<le> \<bar>x1 - 11644473600\<bar> / 2 ^ 53 + p"
    unfolding x2_def p_def by (rule float_round_error)
  have "\<bar>x1 - 11644473600\<bar> \<le> \<bar>x1 - X\<bar> + T + 11644473600"
    unfolding T_def by linarith
  with e1 have e3: "\<bar>x1 - 11644473600\<bar> \<le> T / 2 ^ 53 + p + T + 11644473600"
    by linarith
  from timeval_of_float_error [OF tv [unfolded x2]]
  have us: "0 \<le> us \<and> us < 1000000"
    and e4: "\<bar>R - x2 * 1000000\<bar> \<le> 1 / 2 + 1000000 / 2 ^ 53 + p"
    by (simp_all add: R_def p_def)
  have A: "of_int (sec * 1000000 + us - (t - 11644473600000000))
        = R - (X - 11644473600) * 1000000"
    by (simp add: R_def X_def)
  have B: "\<bar>R - (X - 11644473600) * 1000000\<bar>
        \<le> \<bar>R - x2 * 1000000\<bar> + (\<bar>x2 - (x1 - 11644473600)\<bar> + \<bar>x1 - X\<bar>) * 1000000"
  proof -
    define d1 where "d1 = x2 - (x1 - 11644473600)"
    define d2 where "d2 = x1 - X"
    define d3 where "d3 = R - x2 * 1000000"
    have "R - (X - 11644473600) * 1000000 = d3 + d1 * 1000000 + d2 * 1000000"
      by (simp add: d1_def d2_def d3_def algebra_simps)
    moreover have "\<bar>d3 + d1 * 1000000 + d2 * 1000000\<bar> \<le> \<bar>d3\<bar> + (\<bar>d1\<bar> + \<bar>d2\<bar>) * 1000000"
    proof -
      have "\<bar>d3 + d1 * 1000000 + d2 * 1000000\<bar> \<le> \<bar>d3 + d1 * 1000000\<bar> + \<bar>d2 * 1000000\<bar>"
        by (rule abs_triangle_ineq)
      also have "\<dots> \<le> \<bar>d3\<bar> + \<bar>d1 * 1000000\<bar> + \<bar>d2 * 1000000\<bar>"
        by (intro add_right_mono abs_triangle_ineq)
      also have "\<dots> = \<bar>d3\<bar> + (\<bar>d1\<bar> + \<bar>d2\<bar>) * 1000000"
        by (simp add: abs_mult algebra_simps)
      finally show ?thesis .
    qed
    ultimately show ?thesis
      by (simp only: d1_def d2_def d3_def)
  qed
  have C: "\<bar>R - x2 * 1000000\<bar> + (\<bar>x2 - (x1 - 11644473600)\<bar> + \<bar>x1 - X\<bar>) * 1000000
        \<le> T * 1000000 / 2 ^ 52 + 2"
  proof -
    have "\<bar>x2 - (x1 - 11644473600)\<bar> \<le> (T / 2 ^ 53 + p + T + 11644473600) / 2 ^ 53 + p"
      using e2 e3 by (simp add: field_simps; linarith)
    with e1 e4 T(1) Tb p show ?thesis
      by (simp add: field_simps; linarith)
  qed
  from B C have "\<bar>R - (X - 11644473600) * 1000000\<bar> \<le> T * 1000000 / 2 ^ 52 + 2"
    by (rule order_trans)
  then have "\<bar>of_int (sec * 1000000 + us - (t - 11644473600000000))\<bar>
             \<le> (of_int \<bar>t\<bar> / 2 ^ 52 + 2 :: rat)"
    by (simp only: A T(2))
  with us show ?thesis by blast
qed

subsection \<open>The arithmetic at the inputs used below\<close>

lemma demo_timeval:
  "timeval_of_float (py_float_sub_int (py_truediv 13350000000000000 1000000) 11644473600)
   = (1705526400, 0)"
  by code_simp

lemma demo_visit_time:
  "py_fromtimestamp utc_local_datetime
     (py_float_sub_int (py_truediv 13350000000000000 1000000) 11644473600)
   = Inr (Datetime 1705526400000000)"
  by code_simp

lemma odd_visit_time:
  "py_fromtimestamp utc_local_datetime
     (py_float_sub_int (py_truediv 13350000000000001 1000000) 11644473600)
   = Inr (Datetime 1705526400000002)"
  by code_simp

lemma zero_visit_time:
  "py_fromtimestamp utc_local_datetime (py_float_sub_int (py_truediv 0 1000000) 11644473600)
   = Inr (Datetime (- 11644473600000000))"
  by code_simp

lemma demo_duration: "py_truediv 1500000 1000000 = 3 / 2"
  by code_simp

text \<open>
  The float nearest to one tenth; the last timestamp of the year 9999, whose quotient
  rounds up to the first second of the year 10000, which \<open>datetime\<close> refuses; the first
  second of the year 1, which it refuses too; and the timestamp 1, read two microseconds
  after the vendor's epoch.
\<close>

lemma float_round_tenth: "float_round (1 / 10) = 3602879701896397 / 36028797018963968"
  by code_simp

lemma last_second_rounds_up:
  "py_truediv 265046774399999999 1000000 = 265046774400
   \<and> map_sum id visit_time
       (wal_entry (utc_env stored_rows)
          (''https://example.org/'', None, 1, Some 265046774399999999, None))
     = Inl ValueError"
proof -
  have a: "py_truediv 265046774399999999 1000000 = 265046774400"
    by code_simp
  have b: "py_fromtimestamp utc_local_datetime (py_float_sub_int 265046774400 11644473600)
           = Inl ValueError"
    by code_simp
  show ?thesis
    by (simp add: utc_env_def python_env_def a b)
qed

lemma year_1_raises: "utc_local_datetime (- 62135596800) 0 = Inl ValueError"
  by (simp add: utc_local_datetime_def)

lemma one_microsecond:
  "py_fromtimestamp utc_local_datetime (py_float_sub_int (py_truediv 1 1000000) 11644473600)
   = Inr (Datetime (- 11644473599999998))"
  by code_simp

subsection \<open>The history reader: rows to entries\<close>

lemma wal_entry_absent:
  assumes "chrome_time_of r = None \<or> chrome_time_of r = Some 0"
  shows "\<exists>e. wal_entry env r = Inr e \<and> visit_time e = None"
  using assms by (cases r) auto



lemma wal_loop_iff:
  "wal_loop env rows acc = Inr h \<longleftrightarrow>
     (\<exists>es. h = acc @ es \<and> list_all2 (\<lambda>r e. wal_entry env r = Inr e) rows es)"
proof (induction rows arbitrary: acc)
  case Nil
  then show ?case by auto
next
  case (Cons r rows)
  show ?case
  proof (cases "wal_entry env r")
    case (Inl e)
    then show ?thesis by (auto simp: list_all2_Cons1)
  next
    case (Inr en)
    then show ?thesis
      by (auto simp: Cons.IH list_all2_Cons1)
  qed
qed

lemma WAL_result:
  assumes "files w (history_path env) = Some c"
    and "sqlite_query env ReadOnly c limit = Inr rows"
  shows "getRecentChromeHistoryWAL env w limit =
           (case wal_loop env rows [] of Inl e \<Rightarrow> Inr [] | Inr h \<Rightarrow> Inr h)"
  using assms
  by (simp add: getRecentChromeHistoryWAL_def getRecentChromeHistoryWAL_try_def
      os_path_exists_def run_query_def split: sum.splits pyexc.splits)

lemma WAL_rows:
  assumes "files w (history_path env) = Some c"
    and "sqlite_query env ReadOnly c limit = Inr rows"
    and "getRecentChromeHistoryWAL env w limit = Inr history"
  shows "history = [] \<or> list_all2 (\<lambda>r e. wal_entry env r = Inr e) rows history"
proof (cases "wal_loop env rows []")
  case (Inl e)
  with assms show ?thesis by (simp add: WAL_result)
next
  case (Inr h)
  with assms have "history = h" by (simp add: WAL_result)
  with Inr show ?thesis by (simp add: wal_loop_iff)
qed

lemma WAL_demo:
  "getRecentChromeHistoryWAL (utc_env stored_rows) demo_world 10 =
     Inr [\<lparr>url = ''https://www.youtube.com/watch'', title = ''Video'',
           visit_time = Some (Datetime 1705526400000000), visit_count = 3,
           duration_seconds = PyFloat (3 / 2)\<rparr>,
          \<lparr>url = ''https://example.org/'', title = ''(No title)'',
           visit_time = None, visit_count = 1, duration_seconds = PyInt 0\<rparr>]"
  by (simp add: getRecentChromeHistoryWAL_def getRecentChromeHistoryWAL_try_def
      os_path_exists_def run_query_def utc_env_def python_env_def history_path_def demo_world_def
      demo_rows_def stored_rows_def demo_visit_time demo_duration)

text \<open>
  C3. When the direct read-only strategy returns a history for the rows of the query,
  every row whose vendor timestamp is NULL or zero has an entry, at the same position,
  whose \<open>visit_time\<close> is \<open>None\<close>.
\<close>

theorem null_or_zero_timestamp_is_absent:
  assumes "files w (history_path env) = Some c"
    and "sqlite_query env ReadOnly c limit = Inr rows"
    and "getRecentChromeHistoryWAL env w limit = Inr history"
    and "i < length history"
    and "chrome_time_of (rows ! i) = None \<or> chrome_time_of (rows ! i) = Some 0"
  shows "i < length rows \<and> visit_time (history ! i) = None"
proof -
  from assms(4) have ne: "history \<noteq> []" by auto
  with WAL_rows[OF assms(1-3)] have l: "list_all2 (\<lambda>r e. wal_entry env r = Inr e) rows history"
    by simp
  with assms(4) have "wal_entry env (rows ! i) = Inr (history ! i)" and "i < length rows"
    by (simp_all add: list_all2_conv_all_nth)
  with wal_entry_absent[OF assms(5), of env] show ?thesis by auto
qed

theorem null_or_zero_timestamp_is_absent_witness:
  "chrome_time_of (demo_rows ! 1) = Some 0 \<and>
   length (projr (getRecentChromeHistoryWAL (utc_env stored_rows) demo_world 10)) = 2 \<and>
   visit_time (projr (getRecentChromeHistoryWAL (utc_env stored_rows) demo_world 10) ! 1) = None"
proof -
  have f: "files demo_world (history_path (utc_env stored_rows)) = Some demo_rows"
    by (simp add: demo_world_def history_path_def utc_env_def python_env_def)
  have q: "sqlite_query (utc_env stored_rows) ReadOnly demo_rows 10 = Inr demo_rows"
    by (simp add: utc_env_def python_env_def stored_rows_def demo_rows_def)
  have g: "getRecentChromeHistoryWAL (utc_env stored_rows) demo_world 10 =
        Inr (projr (getRecentChromeHistoryWAL (utc_env stored_rows) demo_world 10))"
    by (simp add: WAL_demo)
  have n: "1 < length (projr (getRecentChromeHistoryWAL (utc_env stored_rows) demo_world 10))"
    by (simp add: WAL_demo)
  have z: "chrome_time_of (demo_rows ! 1) = None \<or> chrome_time_of (demo_rows ! 1) = Some 0"
    by (simp add: demo_rows_def)
  from null_or_zero_timestamp_is_absent [OF f q g n z] show ?thesis
    by (simp add: WAL_demo demo_rows_def)
qed


text \<open>
  C4. The claim, read as arithmetic on exact numbers, fails by a microsecond. For the
  timestamp 13350000000000001 the quotient by 1000000 less 11644473600 is
  1705526400.000001 seconds, but no float holds the quotient: Python's result is the
  visit time 1705526400.000002 seconds after the epoch.
\<close>

theorem timestamp_conversion_counterexample:
  "map_sum id visit_time
     (wal_entry (utc_env stored_rows)
        (''https://example.org/'', None, 1, Some 13350000000000001, None))
   = Inr (Some (Datetime 1705526400000002))
   \<and> map_sum id visit_time
     (wal_entry (utc_env stored_rows)
        (''https://example.org/'', None, 1, Some 13350000000000001, None))
   \<noteq> Inr (Some (Datetime (13350000000000001 - 11644473600000000)))"
  by (simp add: utc_env_def python_env_def odd_visit_time)

text \<open>
  C4, amended. For a row with a nonzero vendor timestamp \<open>t\<close> of 64 bits, both strategies
  divide \<open>t\<close> by 1000000 and subtract 11644473600 in binary64 arithmetic, and
  \<open>datetime.fromtimestamp\<close> reads the result as seconds \<open>sec\<close> and microseconds \<open>us\<close> since
  the 1970 epoch: these differ from the exact \<open>t - 11644473600000000\<close> microseconds by
  at most \<open>\<bar>t\<bar> / 2 ^ 52 + 2\<close> microseconds. The entry's visit time is what the
  platform's local time makes of \<open>sec\<close> and \<open>us\<close>, and the row raises exactly when that
  raises. The result is a function of \<open>t\<close> and the platform alone.
\<close>

theorem timestamp_conversion:
  assumes "chrome_time_of r = Some t" and "t \<noteq> 0" and "- (2 ^ 63) \<le> t" and "t < 2 ^ 63"
  shows "\<exists>sec us.
           timeval_of_float (py_float_sub_int (py_truediv t 1000000) 11644473600) = (sec, us)
           \<and> 0 \<le> us \<and> us < 1000000
           \<and> \<bar>of_int (sec * 1000000 + us - (t - 11644473600000000))\<bar>
               \<le> (of_int \<bar>t\<bar> / 2 ^ 52 + 2 :: rat)
           \<and> map_sum id visit_time (wal_entry (python_env h q local) r)
               = map_sum id Some (local sec us)
           \<and> map_sum id visit_time (copy_entry (python_env h q local) r)
               = map_sum id Some (local sec us)"
proof -
  obtain sec us
    where tv: "timeval_of_float (py_float_sub_int (py_truediv t 1000000) 11644473600) = (sec, us)"
    by (cases "timeval_of_float (py_float_sub_int (py_truediv t 1000000) 11644473600)")
  from conversion_error [OF assms(3,4) tv]
  have b: "0 \<le> us \<and> us < 1000000
           \<and> \<bar>of_int (sec * 1000000 + us - (t - 11644473600000000))\<bar>
               \<le> (of_int \<bar>t\<bar> / 2 ^ 52 + 2 :: rat)" .
  have w: "map_sum id visit_time (wal_entry (python_env h q local) r)
           = map_sum id Some (local sec us)"
    using assms(1,2) tv
    by (cases r) (auto simp: python_env_def py_fromtimestamp_def split: sum.splits)
  have c: "map_sum id visit_time (copy_entry (python_env h q local) r)
           = map_sum id Some (local sec us)"
    using assms(1,2) tv
    by (cases r) (auto simp: python_env_def py_fromtimestamp_def split: sum.splits)
  from tv b w c show ?thesis by blast
qed

theorem timestamp_conversion_witness:
  "chrome_time_of (demo_rows ! 0) = Some 13350000000000000
   \<and> timeval_of_float (py_float_sub_int (py_truediv 13350000000000000 1000000) 11644473600)
       = (1705526400, 0)
   \<and> map_sum id visit_time (wal_entry (utc_env stored_rows) (demo_rows ! 0))
       = Inr (Some (Datetime 1705526400000000))
   \<and> map_sum id visit_time (copy_entry (utc_env stored_rows) (demo_rows ! 0))
       = Inr (Some (Datetime 1705526400000000))"
proof -
  have t: "chrome_time_of (demo_rows ! 0) = Some 13350000000000000"
    by (simp add: demo_rows_def)
  have nz: "(13350000000000000::int) \<noteq> 0" by simp
  have lo: "- (2 ^ 63) \<le> (13350000000000000::int)" by simp
  have hi: "(13350000000000000::int) < 2 ^ 63" by simp
  from timestamp_conversion [OF t nz lo hi, of "''/Users/u''" stored_rows utc_local_datetime]
  obtain sec us
    where "timeval_of_float (py_float_sub_int (py_truediv 13350000000000000 1000000) 11644473600)
           = (sec, us)"
      and w: "map_sum id visit_time (wal_entry (utc_env stored_rows) (demo_rows ! 0))
              = map_sum id Some (utc_local_datetime sec us)"
      and c: "map_sum id visit_time (copy_entry (utc_env stored_rows) (demo_rows ! 0))
              = map_sum id Some (utc_local_datetime sec us)"
    unfolding utc_env_def by blast
  then have "sec = 1705526400" and "us = 0"
    by (simp_all add: demo_timeval)
  with w c t show ?thesis
    by (simp add: demo_timeval utc_local_datetime_def)
qed

text \<open>
  C2. The claim that timestamp 0 converts to the time 11,644,473,600 seconds before the
  1970 epoch fails: the row below, with timestamp 0, gets the visit time \<open>None\<close>.
\<close>

theorem timestamp_0_counterexample:
  "map_sum id visit_time
     (wal_entry (utc_env stored_rows) (''https://example.org/'', None, 1, Some 0, None))
   = Inr None
   \<and> map_sum id visit_time
     (wal_entry (utc_env stored_rows) (''https://example.org/'', None, 1, Some 0, None))
   \<noteq> Inr (Some (Datetime (- 11644473600000000)))"
  by simp

text \<open>The formula alone would give that time; the guard \<open>if chrome_time:\<close> keeps 0 from it.\<close>

lemma timestamp_0_formula:
  "fromtimestamp (utc_env q) (fsub (utc_env q) (truediv (utc_env q) 0 1000000) 11644473600)
   = Inr (Datetime (- 11644473600000000))"
  by (simp add: utc_env_def python_env_def zero_visit_time)

text \<open>
  C2, amended. In both strategies a row with vendor timestamp 0 gets the visit time
  \<open>None\<close>, whatever the library: the guard treats 0 like NULL and no exception is raised.
\<close>

theorem timestamp_0_gives_None:
  assumes "chrome_time_of r = Some 0"
  shows "map_sum id visit_time (wal_entry env r) = Inr None
         \<and> map_sum id visit_time (copy_entry env r) = Inr None"
  using assms by (cases r) simp

theorem timestamp_0_gives_None_witness:
  "chrome_time_of (demo_rows ! 1) = Some 0 \<and>
   map_sum id visit_time (wal_entry (utc_env stored_rows) (demo_rows ! 1)) = Inr None \<and>
   map_sum id visit_time (copy_entry (utc_env stored_rows) (demo_rows ! 1)) = Inr None"
proof -
  have z: "chrome_time_of (demo_rows ! 1) = Some 0"
    by (simp add: demo_rows_def)
  from timestamp_0_gives_None [OF z, of "utc_env stored_rows"] z show ?thesis
    by simp
qed

subsection \<open>The copy strategy\<close>

lemma copy_main:
  assumes "files w (history_path env) = Some c" and "temp_path \<notin> unwritable w"
  shows "shutil_copy2 w (history_path env) temp_path =
           Inr (w\<lparr>files := (files w)(temp_path \<mapsto> c)\<rparr>)"
  using assms by (simp add: shutil_copy2_def)








text \<open>
  C1. The claim fails on the error path. When the store has a journal file beside it
  and the query on the copy raises, the handler removes the scratch copy only: after
  the call the copied journal, \<open>/tmp/chrome_history_copy.db-journal\<close>, is still there. (The
  path without an exception removes both, see \<open>try_success_cleans\<close> below.)
\<close>

theorem error_path_leaves_journal:
  assumes c: "files w (history_path env) = Some c"
    and j: "files w (history_path env @ ''-journal'') = Some j"
    and uw: "temp_path \<notin> unwritable w" "temp_path @ ''-journal'' \<notin> unwritable w"
    and ud: "temp_path \<notin> undeletable w"
    and q: "sqlite_query env ReadWrite c limit = Inl e"
  shows "fst (getRecentChromeHistoryCopy env w limit) = Inr []
         \<and> \<not> os_path_exists (snd (getRecentChromeHistoryCopy env w limit)) temp_path
         \<and> os_path_exists (snd (getRecentChromeHistoryCopy env w limit)) (temp_path @ ''-journal'')"
proof -
  let ?w1 = "w\<lparr>files := (files w)(temp_path \<mapsto> c)\<rparr>"
  let ?jp = "history_path env @ ''-journal''"
  have ex: "os_path_exists w (history_path env)"
    using c by (simp add: os_path_exists_def)
  have s1: "shutil_copy2 w (history_path env) temp_path = Inr ?w1"
    using c uw(1) by (rule copy_main)
  obtain j' where j': "files ?w1 ?jp = Some j'"
    using j by (cases "?jp = temp_path") simp_all
  let ?w2 = "?w1\<lparr>files := (files ?w1)(temp_path @ ''-journal'' \<mapsto> j')\<rparr>"
  have s2: "(if os_path_exists ?w1 ?jp then shutil_copy2 ?w1 ?jp (temp_path @ ''-journal'')
             else Inr ?w1) = Inr ?w2"
    using j' uw(2) by (simp add: os_path_exists_def shutil_copy2_def)
  have q2: "run_query env ReadWrite ?w2 temp_path limit = Inl e"
    using q by (simp add: run_query_def)
  have t: "getRecentChromeHistoryCopy_try env w limit = (Inl e, ?w2)"
    unfolding getRecentChromeHistoryCopy_try_def s1 Let_def by (simp only: s2 q2 sum.case)
  show ?thesis
    using ex ud by (simp add: getRecentChromeHistoryCopy_def t os_remove_def os_path_exists_def)
qed

theorem error_path_leaves_journal_witness:
  "fst (getRecentChromeHistoryCopy (utc_env failing_query) journal_world 10) = Inr []
   \<and> \<not> os_path_exists (snd (getRecentChromeHistoryCopy (utc_env failing_query) journal_world 10))
         ''/tmp/chrome_history_copy.db''
   \<and> os_path_exists (snd (getRecentChromeHistoryCopy (utc_env failing_query) journal_world 10))
         ''/tmp/chrome_history_copy.db-journal''"
proof -
  have f: "files journal_world (history_path (utc_env failing_query)) = Some demo_rows"
    by (simp add: journal_world_def history_path_def utc_env_def python_env_def)
  have j: "files journal_world (history_path (utc_env failing_query) @ ''-journal'') = Some []"
    by (simp add: journal_world_def history_path_def utc_env_def python_env_def)
  have u: "temp_path \<notin> unwritable journal_world"
    "temp_path @ ''-journal'' \<notin> unwritable journal_world"
    "temp_path \<notin> undeletable journal_world"
    by (simp_all add: journal_world_def)
  have q: "sqlite_query (utc_env failing_query) ReadWrite demo_rows 10 = Inl OperationalError"
    by (simp add: utc_env_def python_env_def failing_query_def)
  from error_path_leaves_journal [OF f j u q] show ?thesis
    by (simp add: temp_path_def)
qed


lemma os_remove_gone: "os_remove w p = Inr w' \<Longrightarrow> files w' = (files w)(p := None)"
  by (auto simp: os_remove_def split: if_splits)

lemma try_success_cleans:
  assumes "getRecentChromeHistoryCopy_try env w limit = (Inr h, w')"
  shows "\<not> os_path_exists w' temp_path \<and> \<not> os_path_exists w' (temp_path @ ''-journal'')"
proof -
  from assms obtain w2 w3 where r3: "os_remove w2 temp_path = Inr w3"
    and r4: "(if os_path_exists w3 (temp_path @ ''-journal'')
               then os_remove w3 (temp_path @ ''-journal'') else Inr w3) = Inr w'"
    by (auto simp: getRecentChromeHistoryCopy_try_def Let_def split: sum.splits)
  from r3 have f3: "files w3 temp_path = None"
    by (simp add: os_remove_gone)
  show ?thesis
  proof (cases "os_path_exists w3 (temp_path @ ''-journal'')")
    case True
    with r4 have "files w' = (files w3)(temp_path @ ''-journal'' := None)"
      by (simp add: os_remove_gone)
    with f3 show ?thesis by (simp add: os_path_exists_def)
  next
    case False
    with r4 f3 show ?thesis by (simp add: os_path_exists_def)
  qed
qed

lemma Copy_return_no_scratch:
  assumes "os_path_exists w (history_path env)"
    and "getRecentChromeHistoryCopy env w limit = (Inr h, w')"
  shows "\<not> os_path_exists w' temp_path"
proof (cases "getRecentChromeHistoryCopy_try env w limit")
  case (Pair r w1)
  show ?thesis
  proof (cases r)
    case (Inr h1)
    with Pair assms have "w' = w1" by (simp add: getRecentChromeHistoryCopy_def)
    with Pair Inr try_success_cleans show ?thesis by blast
  next
    case (Inl e)
    with Pair assms show ?thesis
      by (auto simp: getRecentChromeHistoryCopy_def os_path_exists_def os_remove_gone
          split: if_splits sum.splits)
  qed
qed

lemma Copy_never_raises_if_deletable:
  assumes "temp_path \<notin> undeletable w"
  shows "\<exists>h. fst (getRecentChromeHistoryCopy env w limit) = Inr h"
proof -
  have inv: "undeletable w1 = undeletable w"
    if "getRecentChromeHistoryCopy_try env w limit = (r, w1)" for r w1
    using that
    by (auto simp: getRecentChromeHistoryCopy_try_def Let_def shutil_copy2_def os_remove_def
        split: sum.splits option.splits if_splits)
  show ?thesis
  proof (cases "getRecentChromeHistoryCopy_try env w limit")
    case (Pair r w1)
    with inv assms have "temp_path \<notin> undeletable w1" by simp
    with Pair show ?thesis
      by (auto simp: getRecentChromeHistoryCopy_def os_path_exists_def os_remove_def
          split: sum.splits)
  qed
qed

subsection \<open>Failures\<close>

text \<open>
  \<open>getCurrentChromeTabs\<close> and \<open>getRecentChromeHistoryWAL\<close> always return a list, never an
  exception, and the list is empty in every failure mode: when \<open>subprocess.run\<close> raises
  (a timeout or anything else), when the exit status is not zero, when the store is not
  found, and when anything in the \<open>try\<close> block raises (\<open>OperationalError\<close> of a locked
  store, or any other exception).
\<close>

lemma getCurrentChromeTabs_cases:
  "getCurrentChromeTabs maxd run =
     (case getCurrentChromeTabs_try maxd run of Inl e \<Rightarrow> Inr [] | Inr tabs \<Rightarrow> Inr tabs)"
  by (simp add: getCurrentChromeTabs_def split: sum.splits pyexc.splits)

lemma getRecentChromeHistoryWAL_cases:
  "getRecentChromeHistoryWAL env w limit =
     (if \<not> os_path_exists w (history_path env) then Inr []
      else (case getRecentChromeHistoryWAL_try env w limit of
              Inl e \<Rightarrow> Inr [] | Inr history \<Rightarrow> Inr history))"
  by (simp add: getRecentChromeHistoryWAL_def split: sum.splits pyexc.splits)

lemma failures_give_empty_list:
  "(\<exists>tabs. getCurrentChromeTabs maxd run = Inr tabs)
   \<and> (run = Inl e1 \<longrightarrow> getCurrentChromeTabs maxd run = Inr [])
   \<and> (run = Inr result \<and> returncode result \<noteq> 0 \<longrightarrow> getCurrentChromeTabs maxd run = Inr [])
   \<and> (getCurrentChromeTabs_try maxd run = Inl e2 \<longrightarrow> getCurrentChromeTabs maxd run = Inr [])
   \<and> (\<exists>history. getRecentChromeHistoryWAL env w limit = Inr history)
   \<and> (\<not> os_path_exists w (history_path env) \<longrightarrow> getRecentChromeHistoryWAL env w limit = Inr [])
   \<and> (getRecentChromeHistoryWAL_try env w limit = Inl e3 \<longrightarrow>
        getRecentChromeHistoryWAL env w limit = Inr [])"
  by (auto simp: getCurrentChromeTabs_cases getRecentChromeHistoryWAL_cases
      getCurrentChromeTabs_try_def split: sum.splits)


lemma failures_give_empty_list_examples:
  "getCurrentChromeTabs 4300 (Inl TimeoutExpired) = Inr []
   \<and> getCurrentChromeTabs 4300 (Inr \<lparr>returncode = 1, stdout = [], stderr = ''execution error''\<rparr>)
       = Inr []
   \<and> getRecentChromeHistoryWAL (utc_env stored_rows)
        \<lparr>files = Map.empty, unwritable = {}, undeletable = {}\<rparr> 10 = Inr []
   \<and> getRecentChromeHistoryWAL_try (utc_env failing_query) demo_world 10 = Inl OperationalError
   \<and> getRecentChromeHistoryWAL (utc_env failing_query) demo_world 10 = Inr []"
proof -
  have t: "getRecentChromeHistoryWAL_try (utc_env failing_query) demo_world 10
           = Inl OperationalError"
    by (simp add: getRecentChromeHistoryWAL_try_def run_query_def demo_world_def
        history_path_def utc_env_def python_env_def failing_query_def)
  have n: "\<not> os_path_exists \<lparr>files = Map.empty, unwritable = {}, undeletable = {}\<rparr>
             (history_path (utc_env stored_rows))"
    by (simp add: os_path_exists_def)
  have r: "returncode \<lparr>returncode = 1, stdout = [], stderr = ''execution error''\<rparr> \<noteq> 0"
    by simp
  from t failures_give_empty_list
    [where maxd = 4300 and run = "Inl TimeoutExpired" and ?e1.0 = TimeoutExpired
      and ?e2.0 = TimeoutExpired and result = "\<lparr>returncode = 1, stdout = [], stderr = []\<rparr>"
      and env = "utc_env failing_query" and w = demo_world and limit = 10
      and ?e3.0 = OperationalError]
  have a: "getCurrentChromeTabs 4300 (Inl TimeoutExpired) = Inr []"
    and b: "getRecentChromeHistoryWAL (utc_env failing_query) demo_world 10 = Inr []"
    by blast+
  from n r failures_give_empty_list
    [where maxd = 4300
      and run = "Inr \<lparr>returncode = 1, stdout = [], stderr = ''execution error''\<rparr>"
      and ?e1.0 = TimeoutExpired and ?e2.0 = TimeoutExpired
      and result = "\<lparr>returncode = 1, stdout = [], stderr = ''execution error''\<rparr>"
      and env = "utc_env stored_rows"
      and w = "\<lparr>files = Map.empty, unwritable = {}, undeletable = {}\<rparr>" and limit = 10
      and ?e3.0 = OperationalError]
  have c: "getCurrentChromeTabs 4300
             (Inr \<lparr>returncode = 1, stdout = [], stderr = ''execution error''\<rparr>) = Inr []"
    and d: "getRecentChromeHistoryWAL (utc_env stored_rows)
              \<lparr>files = Map.empty, unwritable = {}, undeletable = {}\<rparr> 10 = Inr []"
    by blast+
  from a b c d t show ?thesis by simp
qed

text \<open>
  C6. The claim fails for the copy strategy, the one the history script runs. Its
  handler calls \<open>os.remove\<close> outside any \<open>try\<close>: when the store exists and the scratch copy
  is a file this process can neither overwrite nor remove, \<open>shutil.copy2\<close> raises, the
  handler finds the file, and the exception of \<open>os.remove\<close> leaves the function instead
  of an empty list. (When the scratch copy can be removed the function returns a list,
  see \<open>Copy_never_raises_if_deletable\<close>.)
\<close>

theorem copy_handler_lets_exception_out:
  assumes "files w (history_path env) = Some c"
    and "files w temp_path = Some c'"
    and "temp_path \<in> unwritable w"
    and "temp_path \<in> undeletable w"
  shows "fst (getRecentChromeHistoryCopy env w limit) = Inl OSError"
proof -
  have "shutil_copy2 w (history_path env) temp_path = Inl OSError"
    using assms(1,3) by (simp add: shutil_copy2_def)
  then have "getRecentChromeHistoryCopy_try env w limit = (Inl OSError, w)"
    by (simp add: getRecentChromeHistoryCopy_try_def)
  moreover have "os_remove w temp_path = Inl OSError"
    using assms(4) by (simp add: os_remove_def)
  ultimately show ?thesis
    using assms(1,2) by (simp add: getRecentChromeHistoryCopy_def os_path_exists_def)
qed

theorem copy_handler_lets_exception_out_witness:
  "fst (getRecentChromeHistoryCopy (utc_env stored_rows)
         (demo_world\<lparr>files := (files demo_world)(temp_path \<mapsto> []),
                      unwritable := {temp_path}, undeletable := {temp_path}\<rparr>) 10)
   = Inl OSError"
proof -
  let ?w = "demo_world\<lparr>files := (files demo_world)(temp_path \<mapsto> []),
                        unwritable := {temp_path}, undeletable := {temp_path}\<rparr>"
  have f: "files ?w (history_path (utc_env stored_rows)) = Some demo_rows"
    by (simp add: demo_world_def history_path_def utc_env_def python_env_def temp_path_def)
  have s: "files ?w temp_path = Some []" by simp
  have u: "temp_path \<in> unwritable ?w" "temp_path \<in> undeletable ?w" by simp_all
  from copy_handler_lets_exception_out [OF f s u] show ?thesis .
qed

subsection \<open>The distraction filter\<close>

lemma contains_sublist: "contains sub s \<longleftrightarrow> sublist sub s"
  by (induction s) (simp_all add: sublist_Cons_right)

lemma contains_iff: "contains sub s \<longleftrightarrow> (\<exists>before after. s = before @ sub @ after)"
  by (simp add: contains_sublist sublist_def)

lemma any_domain_iff:
  "list_ex (\<lambda>domain. contains domain u) domains \<longleftrightarrow> url_is_distracting domains u"
  by (simp add: list_ex_iff contains_iff url_is_distracting_def)

text \<open>
  C8. Both distraction filters return exactly the records whose URL holds one of the
  four domains, in the order of the input (the result is \<open>filter\<close> of the input, hence a
  subsequence of it): the empty list when no record matches, the input itself when
  every record matches.
\<close>

theorem distraction_filter:
  "distractions tabs = filter (\<lambda>tab. url_is_distracting check_distracting_domains (url tab)) tabs
   \<and> recent_distractions history =
       filter (\<lambda>entry. url_is_distracting history_distracting_domains (url entry)) history
   \<and> subseq (distractions tabs) tabs \<and> subseq (recent_distractions history) history
   \<and> ((\<forall>tab \<in> set tabs. \<not> url_is_distracting check_distracting_domains (url tab))
        \<longrightarrow> distractions tabs = [])
   \<and> ((\<forall>entry \<in> set history. \<not> url_is_distracting history_distracting_domains (url entry))
        \<longrightarrow> recent_distractions history = [])
   \<and> ((\<forall>tab \<in> set tabs. url_is_distracting check_distracting_domains (url tab))
        \<longrightarrow> distractions tabs = tabs)
   \<and> ((\<forall>entry \<in> set history. url_is_distracting history_distracting_domains (url entry))
        \<longrightarrow> recent_distractions history = history)"
  by (simp add: distractions_def recent_distractions_def any_domain_iff filter_empty_conv
      filter_id_conv)

lemma youtube_distracting:
  "url_is_distracting check_distracting_domains (url youtube_tab)"
  by (simp add: any_domain_iff [symmetric] check_distracting_domains_def youtube_tab_def)

lemma example_not_distracting:
  "\<not> url_is_distracting check_distracting_domains (url example_tab)"
  by (simp add: any_domain_iff [symmetric] check_distracting_domains_def example_tab_def)

theorem distraction_filter_witness:
  "distractions [example_tab, youtube_tab, example_tab] = [youtube_tab]
   \<and> distractions [example_tab, example_tab] = []
   \<and> distractions [youtube_tab, youtube_tab] = [youtube_tab, youtube_tab]"
proof -
  have a: "distractions [example_tab, youtube_tab, example_tab] = [youtube_tab]"
    using distraction_filter [of "[example_tab, youtube_tab, example_tab]" "[] :: rat entry list"]
    by (simp add: youtube_distracting example_not_distracting)
  have b: "distractions [example_tab, example_tab] = []"
    using distraction_filter [of "[example_tab, example_tab]" "[] :: rat entry list"]
    by (simp add: example_not_distracting)
  have c: "distractions [youtube_tab, youtube_tab] = [youtube_tab, youtube_tab]"
    using distraction_filter [of "[youtube_tab, youtube_tab]" "[] :: rat entry list"]
    by (simp add: youtube_distracting)
  from a b c show ?thesis by simp
qed

subsection \<open>The tab lister: a window number that is not an integer\<close>

lemma parse_lines_raises:
  assumes "line \<in> set lines" and "line \<noteq> []"
    and "split_on (CHR ''|'') line = [a, b, c]" and "py_int maxd c = Inl e"
  shows "\<exists>e'. parse_lines maxd lines tabs = Inl e'"
  using assms(1)
proof (induction lines arbitrary: tabs)
  case Nil
  then show ?case by simp
next
  case (Cons l ls)
  show ?case
  proof (cases "l = line")
    case True
    with assms show ?thesis by simp
  next
    case False
    with Cons.prems have "line \<in> set ls" by simp
    from Cons.IH [OF this] show ?thesis
      by (auto simp: Let_def split: sum.splits)
  qed
qed

text \<open>
  C10. When one non-empty line of the stripped output splits into exactly three fields
  of which the third is not an integer for \<open>int\<close>, the function returns the empty list:
  the \<open>ValueError\<close> leaves the loop and the tabs parsed before it are lost.
\<close>

theorem unparseable_window_discards_all:
  assumes "line \<in> set (split_on newline (strip (stdout result)))"
    and "line \<noteq> []"
    and "split_on (CHR ''|'') line = [a, b, c]"
    and "py_int maxd c = Inl e"
  shows "getCurrentChromeTabs maxd (Inr result) = Inr []"
proof (cases "returncode result = 0")
  case True
  from parse_lines_raises [OF assms]
  obtain e' where "parse_lines maxd (split_on newline (strip (stdout result))) [] = Inl e'"
    by blast
  with True have "getCurrentChromeTabs_try maxd (Inr result) = Inl e'"
    by (simp add: getCurrentChromeTabs_try_def)
  then show ?thesis
    by (simp add: getCurrentChromeTabs_def split: pyexc.splits)
next
  case False
  then show ?thesis
    by (simp add: getCurrentChromeTabs_def getCurrentChromeTabs_try_def)
qed


theorem unparseable_window_discards_all_witness:
  "py_int 4300 ''two'' = Inl ValueError
   \<and> getCurrentChromeTabs 4300
        (Inr \<lparr>returncode = 0,
              stdout = ''https://a/|A|1'' @ [newline] @ ''https://b/|B|two'' @ [newline],
              stderr = []\<rparr>) = Inr []"
proof -
  let ?out = "''https://a/|A|1'' @ [newline] @ ''https://b/|B|two'' @ [newline]"
  let ?result = "\<lparr>returncode = 0, stdout = ?out, stderr = []\<rparr>"
  have "strip ?out = ''https://a/|A|1'' @ [newline] @ ''https://b/|B|two''"
    by (simp add: strip_def is_space_def py_whitespace_def newline_def)
  then have l: "''https://b/|B|two'' \<in> set (split_on newline (strip (stdout ?result)))"
    by (simp add: newline_def)
  have n: "''https://b/|B|two'' \<noteq> []" by simp
  have p: "split_on (CHR ''|'') ''https://b/|B|two'' = [''https://b/'', ''B'', ''two'']"
    by simp
  have i: "py_int 4300 ''two'' = Inl ValueError"
    by (simp add: py_int_def int_space_def int_whitespace_def is_digit_def)
  from unparseable_window_discards_all [OF l n p i] i show ?thesis by simp
qed

text \<open>The same output with an integer in that field gives both tabs.\<close>

lemma parseable_lines_are_kept:
  "getCurrentChromeTabs 4300
     (Inr \<lparr>returncode = 0,
           stdout = ''https://a/|A|1'' @ [newline] @ ''https://b/|B|2'' @ [newline],
           stderr = []\<rparr>)
   = Inr [\<lparr>url = ''https://a/'', title = ''A'', window = 1\<rparr>,
          \<lparr>url = ''https://b/'', title = ''B'', window = 2\<rparr>]"
  by (simp add: getCurrentChromeTabs_def getCurrentChromeTabs_try_def strip_def is_space_def
      py_whitespace_def newline_def py_int_def int_space_def int_whitespace_def is_digit_def
      digit_val_def)

subsection \<open>Decimal digits\<close>

lemma digit_char_cases:
  "digit_char d \<in> set ''0123456789'' \<and> digit_val (digit_char d) = d mod 10"
proof -
  have "d mod 10 < 10" by simp
  then have "d mod 10 = 0 \<or> d mod 10 = 1 \<or> d mod 10 = 2 \<or> d mod 10 = 3 \<or> d mod 10 = 4
      \<or> d mod 10 = 5 \<or> d mod 10 = 6 \<or> d mod 10 = 7 \<or> d mod 10 = 8 \<or> d mod 10 = 9"
    by arith
  then show ?thesis
    by (elim disjE) (simp_all add: digit_val_def digit_char_def)
qed

lemma digit_char_is_digit: "is_digit (digit_char d)"
  using digit_char_cases [of d] by (simp add: is_digit_def)

lemma digit_val_digit_char: "d < 10 \<Longrightarrow> digit_val (digit_char d) = d"
  using digit_char_cases [of d] by simp

lemma str_nat_digits: "list_all is_digit (str_nat n)"
proof (induction n rule: str_nat.induct)
  case (1 n)
  show ?case
  proof (cases "n < 10")
    case True
    then show ?thesis by (subst str_nat.simps) (simp add: digit_char_is_digit)
  next
    case False
    with 1 show ?thesis by (subst str_nat.simps) (simp add: digit_char_is_digit)
  qed
qed

lemma str_nat_not_Nil: "str_nat n \<noteq> []"
  by (subst str_nat.simps) simp

lemma digits_value_append:
  "digits_value acc (xs @ ys) = digits_value (digits_value acc xs) ys"
  by (induction xs arbitrary: acc) simp_all

lemma digits_value_str_nat: "digits_value 0 (str_nat n) = n"
proof (induction n rule: str_nat.induct)
  case (1 n)
  show ?case
  proof (cases "n < 10")
    case True
    then show ?thesis by (subst str_nat.simps) (simp add: digit_val_digit_char)
  next
    case False
    with 1 have "digits_value 0 (str_nat (n div 10)) = n div 10" by simp
    with False show ?thesis
      by (subst str_nat.simps) (simp add: digits_value_append digit_val_digit_char)
  qed
qed

lemma is_digit_facts:
  assumes "is_digit c"
  shows "c \<noteq> CHR ''|''" "c \<noteq> newline" "\<not> is_space c" "\<not> int_space c"
    "c \<noteq> CHR ''_''" "c \<noteq> CHR ''+''" "c \<noteq> CHR ''-''"
  using assms
  by (auto simp: is_digit_def newline_def is_space_def py_whitespace_def int_space_def
      int_whitespace_def)


lemma double_underscore_digits: "list_all is_digit s \<Longrightarrow> \<not> double_underscore s"
  by (induction s rule: double_underscore.induct) (auto dest: is_digit_facts(5))

lemma py_int_digits:
  assumes d: "list_all is_digit s" and ne: "s \<noteq> []" and len: "length s \<le> 640"
  shows "py_int maxd s = Inr (int (digits_value 0 s))"
proof -
  from ne obtain c cs where s: "s = c # cs" by (cases s) auto
  with d have c: "is_digit c" by simp
  have dw: "dropWhile int_space s = s"
    using s c by (simp add: is_digit_facts)
  have hd: "hd s \<noteq> CHR ''+''" "hd s \<noteq> CHR ''-''" "hd s \<noteq> CHR ''_''"
    using s c by (simp_all add: is_digit_facts)
  have all: "\<forall>x \<in> set s. is_digit x \<or> x = CHR ''_''"
    using d by (simp add: list_all_iff)
  then have tw: "takeWhile (\<lambda>c. is_digit c \<or> c = CHR ''_'') s = s"
    and dr: "dropWhile (\<lambda>c. is_digit c \<or> c = CHR ''_'') s = []"
    by simp_all
  have fl: "filter is_digit s = s"
    using d by (simp add: list_all_iff)
  have "is_digit (last s)"
    using d ne by (simp add: list_all_iff)
  then have last: "last s \<noteq> CHR ''_''"
    by (simp add: is_digit_facts)
  show ?thesis
    using ne hd last len double_underscore_digits [OF d]
    by (simp add: py_int_def dw tw dr fl Let_def)
qed

lemma py_int_str_nat:
  "length (str_nat n) \<le> 640 \<Longrightarrow> py_int maxd (str_nat n) = Inr (int n)"
  by (simp add: py_int_digits str_nat_digits str_nat_not_Nil digits_value_str_nat)


subsection \<open>Splitting and joining\<close>

lemma split_on_not_Nil: "split_on sep s \<noteq> []"
  by (induction s) (auto split: list.splits)

lemma split_on_length:
  "length (split_on sep s) = Suc (length (filter (\<lambda>x. x = sep) s))"
  by (induction s) (auto split: list.splits simp: split_on_not_Nil)

lemma split_on_no_sep: "sep \<notin> set s \<Longrightarrow> split_on sep s = [s]"
  by (induction s) auto

lemma split_on_append_sep:
  "sep \<notin> set a \<Longrightarrow> split_on sep (a @ sep # b) = a # split_on sep b"
  by (induction a) auto

lemma three_fields_count:
  "three_fields l \<longleftrightarrow> length (filter (\<lambda>x. x = CHR ''|'') l) = 2"
  by (simp add: three_fields_def split_on_length)

lemma three_fields_rev: "three_fields (rev l) = three_fields l"
  by (simp add: three_fields_count flip: rev_filter)

lemma not_three_fields_Nil: "\<not> three_fields []"
  by (simp add: three_fields_count)

lemma split_join:
  assumes "ls \<noteq> []" and "\<forall>l \<in> set ls. newline \<notin> set l"
  shows "split_on newline (join_lines ls) = ls"
  using assms
proof (induction ls rule: join_lines.induct)
  case 1
  then show ?case by simp
next
  case (2 l)
  then show ?case by (simp add: split_on_no_sep)
next
  case (3 l l' ls)
  then show ?case by (simp add: split_on_append_sep)
qed

lemma join_lines_Cons:
  "join_lines (l # ls) = (if ls = [] then l else l @ newline # join_lines ls)"
  by (cases ls) simp_all

lemma join_lines_snoc:
  "join_lines (ls @ [l]) = (if ls = [] then l else join_lines ls @ newline # l)"
  by (induction ls rule: join_lines.induct) (simp_all add: join_lines_Cons)

lemma rev_join_lines: "rev (join_lines ls) = join_lines (rev (map rev ls))"
  by (induction ls) (simp_all add: join_lines_Cons join_lines_snoc)


subsection \<open>Stripping the output\<close>

lemma clean_lines_rev: "clean_lines ls \<Longrightarrow> clean_lines (rev (map rev ls))"
  by (auto simp: clean_lines_def list_all_iff three_fields_rev hd_rev last_rev)

lemma filter_three_fields_rev:
  "filter three_fields (rev (map rev ls)) = rev (map rev (filter three_fields ls))"
  by (induction ls) (simp_all add: three_fields_rev)

lemma space_not_bar: "is_space c \<Longrightarrow> c \<noteq> CHR ''|''"
  by (auto simp: is_space_def py_whitespace_def)

lemma drop_leading_space:
  assumes ne: "ls \<noteq> []" and cl: "clean_lines ls"
    and j: "join_lines ls = c # s" and sp: "is_space c"
  shows "\<exists>ls'. ls' \<noteq> [] \<and> clean_lines ls' \<and> join_lines ls' = s
           \<and> filter three_fields ls' = filter three_fields ls"
proof -
  from ne obtain l rest where ls: "ls = l # rest" by (cases ls) auto
  show ?thesis
  proof (cases l)
    case Nil
    with j ls have rest: "rest \<noteq> []" and s: "s = join_lines rest"
      by (auto simp: join_lines_Cons split: if_splits)
    from cl ls have "clean_lines rest" by (simp add: clean_lines_def)
    with rest s ls Nil show ?thesis
      by (intro exI [of _ rest]) (simp add: not_three_fields_Nil)
  next
    case (Cons x l')
    with j ls have x: "x = c" and s: "s = join_lines (l' # rest)"
      by (auto simp: join_lines_Cons split: if_splits)
    from cl ls Cons x sp have n3: "\<not> three_fields l"
      by (auto simp: clean_lines_def)
    with Cons x sp have n3': "\<not> three_fields l'"
      by (simp add: three_fields_count space_not_bar)
    from cl ls Cons have "clean_lines (l' # rest)"
      using n3' by (simp add: clean_lines_def)
    with s ls n3 n3' show ?thesis
      by (intro exI [of _ "l' # rest"]) simp
  qed
qed

lemma dropWhile_space_lines:
  assumes "ls \<noteq> []" and "clean_lines ls" and "join_lines ls = s"
  shows "\<exists>ls'. ls' \<noteq> [] \<and> clean_lines ls' \<and> join_lines ls' = dropWhile is_space s
           \<and> filter three_fields ls' = filter three_fields ls"
  using assms
proof (induction s arbitrary: ls)
  case Nil
  then show ?case by auto
next
  case (Cons c s)
  show ?case
  proof (cases "is_space c")
    case True
    from drop_leading_space [OF Cons.prems(1,2,3) True]
    obtain ls1 where "ls1 \<noteq> []" "clean_lines ls1" "join_lines ls1 = s"
      and f: "filter three_fields ls1 = filter three_fields ls"
      by blast
    from Cons.IH [OF this(1-3)] f True show ?thesis by auto
  next
    case False
    with Cons.prems show ?thesis by auto
  qed
qed

lemma strip_lines:
  assumes "ls \<noteq> []" and "clean_lines ls"
  shows "\<exists>ls'. ls' \<noteq> [] \<and> clean_lines ls' \<and> join_lines ls' = strip (join_lines ls)
           \<and> filter three_fields ls' = filter three_fields ls"
proof -
  from dropWhile_space_lines [OF assms refl]
  obtain l1 where l1: "l1 \<noteq> []" "clean_lines l1"
    and j1: "join_lines l1 = dropWhile is_space (join_lines ls)"
    and f1: "filter three_fields l1 = filter three_fields ls"
    by blast
  let ?m = "rev (map rev l1)"
  have m: "?m \<noteq> []" "clean_lines ?m"
    using l1 by (simp_all add: clean_lines_rev)
  from dropWhile_space_lines [OF m refl]
  obtain m' where m': "m' \<noteq> []" "clean_lines m'"
    and j2: "join_lines m' = dropWhile is_space (join_lines ?m)"
    and f2: "filter three_fields m' = filter three_fields ?m"
    by blast
  let ?r = "rev (map rev m')"
  have "join_lines ?r = rev (join_lines m')"
    by (simp add: rev_join_lines)
  also have "\<dots> = strip (join_lines ls)"
    by (simp add: j2 strip_def j1 [symmetric] rev_join_lines)
  finally have j: "join_lines ?r = strip (join_lines ls)" .
  have "filter three_fields ?r = rev (map rev (filter three_fields m'))"
    by (rule filter_three_fields_rev)
  also have "\<dots> = filter three_fields l1"
    by (simp add: f2 filter_three_fields_rev rev_map [symmetric] comp_def)
  finally have f: "filter three_fields ?r = filter three_fields ls"
    by (simp add: f1)
  from m' j f show ?thesis
    by (intro exI [of _ ?r]) (simp add: clean_lines_rev)
qed


subsection \<open>The tab lister on the script's output\<close>

lemma parse_lines_filter:
  "parse_lines maxd ls tabs = parse_lines maxd (filter three_fields ls) tabs"
proof (induction ls arbitrary: tabs)
  case Nil
  then show ?case by simp
next
  case (Cons l ls)
  show ?case
  proof (cases "three_fields l")
    case True
    then have "l \<noteq> []" using not_three_fields_Nil by auto
    with True Cons show ?thesis
      by (simp add: three_fields_def Let_def split: sum.splits)
  next
    case False
    with Cons show ?thesis
      by (simp add: three_fields_def Let_def)
  qed
qed

lemma str_nat_no_bar: "CHR ''|'' \<notin> set (str_nat w)"
  using str_nat_digits [of w] is_digit_facts(1) by (auto simp: list_all_iff)

lemma str_nat_no_newline: "newline \<notin> set (str_nat w)"
  using str_nat_digits [of w] is_digit_facts(2) by (auto simp: list_all_iff)

lemma str_nat_last_not_space: "\<not> is_space (last (str_nat w))"
proof -
  have "last (str_nat w) \<in> set (str_nat w)"
    by (simp add: str_nat_not_Nil)
  with str_nat_digits [of w] have "is_digit (last (str_nat w))"
    by (simp add: list_all_iff)
  then show ?thesis by (rule is_digit_facts(3))
qed

lemma split_tab_line:
  assumes "CHR ''|'' \<notin> set u" and "CHR ''|'' \<notin> set t"
  shows "split_on (CHR ''|'') (u @ CHR ''|'' # t @ CHR ''|'' # str_nat w) = [u, t, str_nat w]"
  using assms
  by (simp add: split_on_append_sep split_on_no_sep str_nat_no_bar)

lemma bar_not_space: "\<not> is_space (CHR ''|'')"
  by (simp add: is_space_def py_whitespace_def)

lemma bar_not_newline: "CHR ''|'' \<noteq> newline"
  by (simp add: newline_def)

lemma valid_line_clean:
  assumes "valid_line l"
  shows "newline \<notin> set (line_text l)
         \<and> (three_fields (line_text l) \<longrightarrow>
              line_text l \<noteq> [] \<and> \<not> is_space (hd (line_text l))
              \<and> \<not> is_space (last (line_text l)))"
proof (cases l)
  case (TabLine u t w)
  with assms have v: "newline \<notin> set u" "newline \<notin> set t" "u = [] \<or> \<not> is_space (hd u)"
    by simp_all
  have n: "newline \<notin> set (line_text l)"
    using TabLine v bar_not_newline by (auto simp: str_nat_no_newline)
  have h: "\<not> is_space (hd (line_text l))"
    using TabLine v(3) by (cases u) (simp_all add: bar_not_space)
  have "last (line_text l) = last (str_nat w)"
    using TabLine by (simp add: str_nat_not_Nil)
  with n h TabLine show ?thesis
    by (simp add: str_nat_last_not_space)
next
  case (OtherLine s)
  with assms show ?thesis by (simp add: three_fields_def)
qed

lemma script_output_clean:
  assumes "\<forall>l \<in> set ls. valid_line l"
  shows "clean_lines (map line_text ls @ [[]])"
  using assms valid_line_clean
  by (simp add: clean_lines_def list_all_iff not_three_fields_Nil)

lemma script_output_join: "script_output ls = join_lines (map line_text ls @ [[]])"
  by (induction ls) (simp_all add: script_output_def join_lines_Cons)

lemma parse_script_lines:
  assumes "\<forall>l \<in> set ls. valid_line l"
  shows "parse_lines maxd (map line_text ls @ [[]]) tabs = Inr (tabs @ tabs_of ls)"
  using assms
proof (induction ls arbitrary: tabs)
  case Nil
  then show ?case by simp
next
  case (Cons l ls)
  then have IH: "\<And>tabs. parse_lines maxd (map line_text ls @ [[]]) tabs = Inr (tabs @ tabs_of ls)"
    by simp
  show ?case
  proof (cases l)
    case (TabLine u t w)
    with Cons.prems have v: "CHR ''|'' \<notin> set u" "CHR ''|'' \<notin> set t"
      "length (str_nat w) \<le> 640"
      by simp_all
    have pi: "py_int maxd (str_nat w) = Inr (int w)"
      using v(3) by (rule py_int_str_nat)
    show ?thesis
      using v(1,2) by (simp add: TabLine split_tab_line pi IH Let_def)
  next
    case (OtherLine s)
    with Cons.prems have "length (split_on (CHR ''|'') s) \<noteq> 3" by simp
    with OtherLine show ?thesis
      by (simp add: IH Let_def)
  qed
qed

text \<open>
  C5. Take any output made of lines that each end with a line feed, every line being
  either a valid tab line (URL, title and window number joined by \<open>|\<close>, no \<open>|\<close> and no line
  feed inside the URL or the title, the URL not starting with white space, the window
  number written in decimal) or a line, possibly empty, whose field count is not three.
  When the process exits with status 0, \<open>getCurrentChromeTabs\<close> returns exactly the
  triples of the tab lines, in order: the other lines are dropped without an error.
\<close>

theorem tab_lines_round_trip:
  assumes "\<forall>l \<in> set ls. valid_line l"
  shows "getCurrentChromeTabs maxd
           (Inr \<lparr>returncode = 0, stdout = script_output ls, stderr = err\<rparr>)
         = Inr (tabs_of ls)"
proof -
  let ?L = "map line_text ls @ [[]]"
  have ne: "?L \<noteq> []" by simp
  have cl: "clean_lines ?L" using assms by (rule script_output_clean)
  from strip_lines [OF ne cl]
  obtain L' where L': "L' \<noteq> []" "clean_lines L'"
    and j: "join_lines L' = strip (join_lines ?L)"
    and f: "filter three_fields L' = filter three_fields ?L"
    by blast
  from L'(2) have "\<forall>l \<in> set L'. newline \<notin> set l"
    by (simp add: clean_lines_def list_all_iff)
  with L'(1) have "split_on newline (join_lines L') = L'"
    by (rule split_join)
  then have sp: "split_on newline (strip (script_output ls)) = L'"
    by (simp add: j script_output_join)
  have "parse_lines maxd L' [] = parse_lines maxd (filter three_fields ?L) []"
    by (subst parse_lines_filter) (simp only: f)
  also have "\<dots> = parse_lines maxd ?L []"
    by (rule parse_lines_filter [symmetric])
  also have "\<dots> = Inr (tabs_of ls)"
    using parse_script_lines [OF assms, of maxd "[]"] by simp
  finally have "parse_lines maxd L' [] = Inr (tabs_of ls)" .
  then show ?thesis
    by (simp add: getCurrentChromeTabs_def getCurrentChromeTabs_try_def sp)
qed


theorem tab_lines_round_trip_witness:
  "getCurrentChromeTabs 4300
     (Inr \<lparr>returncode = 0,
           stdout = ''https://www.youtube.com/watch|Video|1'' @ [newline] @ ''a|b'' @ [newline]
                    @ [newline] @ ''w|x|y|z'' @ [newline]
                    @ ''https://example.org/|Example|12'' @ [newline],
           stderr = []\<rparr>)
   = Inr [\<lparr>url = ''https://www.youtube.com/watch'', title = ''Video'', window = 1\<rparr>,
          \<lparr>url = ''https://example.org/'', title = ''Example'', window = 12\<rparr>]"
proof -
  have s1: "str_nat (Suc 0) = ''1''" and s12: "str_nat 12 = ''12''"
    by (simp_all add: str_nat.simps [of 12] str_nat_digit digit_char_def)
  have v: "\<forall>l \<in> set demo_lines. valid_line l"
    by (simp add: demo_lines_def s1 s12 newline_def is_space_def py_whitespace_def)
  from tab_lines_round_trip [OF v, of 4300 "[]"] show ?thesis
    by (simp add: demo_lines_def script_output_def s1 s12)
qed


text \<open>
  \<open>strip()\<close> is applied to the whole output before it is split, so white space in front
  of the first URL would be lost; a URL holds none.
\<close>

lemma leading_space_is_stripped:
  "getCurrentChromeTabs 4300
     (Inr \<lparr>returncode = 0, stdout = '' x|t|1'' @ [newline], stderr = []\<rparr>)
   = Inr [\<lparr>url = ''x'', title = ''t'', window = 1\<rparr>]"
  by (simp add: getCurrentChromeTabs_def getCurrentChromeTabs_try_def strip_def is_space_def
      py_whitespace_def newline_def py_int_def int_space_def int_whitespace_def is_digit_def
      digit_val_def)

end
